theory Spec2Isabelle
  imports
    Main
    "HOL-Library.Word"
    "HOL-Library.Sublist"
    "HOL-Library.AList"
    "HOL-Library.Multiset"
    "HOL-Library.Char_ord"
    "HOL-Library.List_Lexorder"
begin

unbundle bit_operations_syntax

section \<open>JavaScript strings\<close>

text \<open>
  A JavaScript string is a sequence of code units. The model uses Isabelle's \<open>string\<close>
  (a list of 8-bit characters) and reads a character as the code unit of the same number,
  U+0000 to U+00FF (ASCII and Latin-1). The library functions the sources call on strings
  (\<open>trim\<close>, \<open>toLowerCase\<close>, \<open>includes\<close>, \<open>match\<close> with a global pattern,
  \<open>split\<close> and \<open>replace\<close> with the patterns of the sources) are written out with their
  ECMAScript meaning on that range.
\<close>

abbreviation NL :: char where
  "NL \<equiv> CHR 0x0A"

text \<open>White space and line terminators below U+0100: what \<open>trim\<close> removes and \<open>\s\<close> matches.\<close>

definition isWhiteSpace :: "char \<Rightarrow> bool" where
  "isWhiteSpace c =
     (c = CHR 0x09 \<or> c = CHR 0x0A \<or> c = CHR 0x0B \<or> c = CHR 0x0C \<or> c = CHR 0x0D
      \<or> c = CHR 0x20 \<or> c = CHR 0xA0)"

definition trim :: "string \<Rightarrow> string" where
  "trim s = rev (dropWhile isWhiteSpace (rev (dropWhile isWhiteSpace s)))"

text \<open>Capital letters below U+0100 are A to Z and U+00C0 to U+00DE without the
  multiplication sign U+00D7; the small letter is 32 code units further.\<close>

definition isUpper :: "char \<Rightarrow> bool" where
  "isUpper c =
     (let n = (of_char c :: nat)
      in (65 \<le> n \<and> n \<le> 90) \<or> (192 \<le> n \<and> n \<le> 222 \<and> n \<noteq> 215))"

definition toLowerCase_char :: "char \<Rightarrow> char" where
  "toLowerCase_char c = (if isUpper c then char_of ((of_char c :: nat) + 32) else c)"

definition toLowerCase :: "string \<Rightarrow> string" where
  "toLowerCase s = map toLowerCase_char s"

text \<open>\<open>s.includes(p)\<close>: \<open>p\<close> occurs in \<open>s\<close> at some position.\<close>

fun includes_str :: "string \<Rightarrow> string \<Rightarrow> bool" where
  "includes_str [] p = (p = [])"
| "includes_str (c # cs) p = (prefix p (c # cs) \<or> includes_str cs p)"

text \<open>\<open>(s.match(/p/g) || []).length\<close> for a pattern \<open>p\<close> of literal characters: the
  matcher scans from the left, and after a match goes on behind it.\<close>

function match_count :: "string \<Rightarrow> string \<Rightarrow> nat" where
  "match_count p [] = 0"
| "match_count p (c # cs) =
     (if prefix p (c # cs) then Suc (match_count p (drop (length p - 1) cs))
      else match_count p cs)"
  by pat_completeness auto
termination
  by (relation "measure (\<lambda>(p, s). length s)") auto

text \<open>The pattern \<open>/\n\s*\n/\<close> at the start of \<open>s\<close>: a line feed, then white space taken
  greedily and given back until a line feed follows. The match ends behind the last line
  feed of the white space that follows the first one; the result is the rest of \<open>s\<close>
  behind the match.\<close>

definition match_blank :: "string \<Rightarrow> string option" where
  "match_blank s =
     (case s of
        [] \<Rightarrow> None
      | c # cs \<Rightarrow>
          if c = NL \<and> NL \<in> set (takeWhile isWhiteSpace cs)
          then Some (rev (takeWhile (\<lambda>x. x \<noteq> NL) (rev (takeWhile isWhiteSpace cs)))
                     @ dropWhile isWhiteSpace cs)
          else None)"

lemma match_blank_shorter: "match_blank s = Some r \<Longrightarrow> length r < length s"
proof -
  assume a: "match_blank s = Some r"
  then obtain c cs where s: "s = c # cs"
    by (cases s) (auto simp: match_blank_def)
  let ?w = "takeWhile isWhiteSpace cs"
  from a s have r: "r = rev (takeWhile (\<lambda>x. x \<noteq> NL) (rev ?w)) @ dropWhile isWhiteSpace cs"
    by (auto simp: match_blank_def split: if_splits)
  have "length (takeWhile (\<lambda>x. x \<noteq> NL) (rev ?w)) \<le> length ?w"
    using length_takeWhile_le [of "\<lambda>x. x \<noteq> NL" "rev ?w"] by simp
  moreover have "length ?w + length (dropWhile isWhiteSpace cs) = length cs"
    by (metis length_append takeWhile_dropWhile_id)
  ultimately show ?thesis using r s by simp
qed

text \<open>\<open>s.split(/\n\s*\n/)\<close>: \<open>acc\<close> is the piece being collected. Where the pattern
  matches, the piece ends and the scan goes on behind the match; elsewhere the character
  joins the piece. The last piece is always delivered, also when it is empty.\<close>

function split_blank :: "string \<Rightarrow> string \<Rightarrow> string list" where
  "split_blank acc [] = [acc]"
| "split_blank acc (c # cs) =
     (case match_blank (c # cs) of
        Some r \<Rightarrow> acc # split_blank [] r
      | None \<Rightarrow> split_blank (acc @ [c]) cs)"
  by pat_completeness auto
termination
  by (relation "measure (\<lambda>(acc, s). length s)") (auto dest: match_blank_shorter)

section \<open>Hashing a question (firebase.ts, index.tsx)\<close>

text \<open>\<open>new TextEncoder().encode(s)\<close>: UTF-8. A code unit below U+0080 is one byte, one
  from U+0080 to U+00FF is two.\<close>

definition utf8_char :: "char \<Rightarrow> 8 word list" where
  "utf8_char c =
     (let n = (of_char c :: nat)
      in if n < 128 then [of_nat n]
         else [of_nat (192 + n div 64), of_nat (128 + n mod 64)])"

definition encode :: "string \<Rightarrow> 8 word list" where
  "encode s = concat (map utf8_char s)"

subsection \<open>SHA-256\<close>

text \<open>\<open>crypto.subtle.digest("SHA-256", bytes)\<close> is the platform's SHA-256 (FIPS 180-4),
  written out here on 32-bit words: padding, the message schedule, 64 rounds for each
  block of 64 bytes, and the eight state words in big-endian byte order.\<close>

text \<open>The round constants, eight to a row.\<close>

definition K256 :: "32 word list" where
  "K256 =
     [0x428a2f98, 0x71374491, 0xb5c0fbcf, 0xe9b5dba5, 0x3956c25b, 0x59f111f1, 0x923f82a4, 0xab1c5ed5] @
     [0xd807aa98, 0x12835b01, 0x243185be, 0x550c7dc3, 0x72be5d74, 0x80deb1fe, 0x9bdc06a7, 0xc19bf174] @
     [0xe49b69c1, 0xefbe4786, 0x0fc19dc6, 0x240ca1cc, 0x2de92c6f, 0x4a7484aa, 0x5cb0a9dc, 0x76f988da] @
     [0x983e5152, 0xa831c66d, 0xb00327c8, 0xbf597fc7, 0xc6e00bf3, 0xd5a79147, 0x06ca6351, 0x14292967] @
     [0x27b70a85, 0x2e1b2138, 0x4d2c6dfc, 0x53380d13, 0x650a7354, 0x766a0abb, 0x81c2c92e, 0x92722c85] @
     [0xa2bfe8a1, 0xa81a664b, 0xc24b8b70, 0xc76c51a3, 0xd192e819, 0xd6990624, 0xf40e3585, 0x106aa070] @
     [0x19a4c116, 0x1e376c08, 0x2748774c, 0x34b0bcb5, 0x391c0cb3, 0x4ed8aa4a, 0x5b9cca4f, 0x682e6ff3] @
     [0x748f82ee, 0x78a5636f, 0x84c87814, 0x8cc70208, 0x90befffa, 0xa4506ceb, 0xbef9a3f7, 0xc67178f2]"

definition H256 :: "32 word list" where
  "H256 =
    [0x6a09e667, 0xbb67ae85, 0x3c6ef372, 0xa54ff53a, 0x510e527f, 0x9b05688c, 0x1f83d9ab, 0x5be0cd19]"

definition sha_pad :: "8 word list \<Rightarrow> 8 word list" where
  "sha_pad m =
     (let n = length m;
          z = (119 - n mod 64) mod 64;
          bits = (of_nat (8 * n) :: 64 word)
      in m @ [0x80] @ replicate z 0
         @ map (\<lambda>i. ucast (drop_bit (8 * (7 - i)) bits)) [0..<8])"

definition be32 :: "8 word list \<Rightarrow> 32 word" where
  "be32 bs = foldl (\<lambda>acc b. push_bit 8 acc OR ucast b) 0 bs"

definition bytes_of_word32 :: "32 word \<Rightarrow> 8 word list" where
  "bytes_of_word32 x = map (\<lambda>i. ucast (drop_bit (8 * (3 - i)) x)) [0..<4]"

fun chunks_of :: "nat \<Rightarrow> 'a list \<Rightarrow> 'a list list" where
  "chunks_of n [] = []"
| "chunks_of n (x # xs) = take (Suc (n - 1)) (x # xs) # chunks_of n (drop (n - 1) xs)"

definition sigma0 :: "32 word \<Rightarrow> 32 word" where
  "sigma0 x = word_rotr 7 x XOR word_rotr 18 x XOR drop_bit 3 x"

definition sigma1 :: "32 word \<Rightarrow> 32 word" where
  "sigma1 x = word_rotr 17 x XOR word_rotr 19 x XOR drop_bit 10 x"

definition Sigma0 :: "32 word \<Rightarrow> 32 word" where
  "Sigma0 x = word_rotr 2 x XOR word_rotr 13 x XOR word_rotr 22 x"

definition Sigma1 :: "32 word \<Rightarrow> 32 word" where
  "Sigma1 x = word_rotr 6 x XOR word_rotr 11 x XOR word_rotr 25 x"

definition Ch :: "32 word \<Rightarrow> 32 word \<Rightarrow> 32 word \<Rightarrow> 32 word" where
  "Ch x y z = (x AND y) XOR (NOT x AND z)"

definition Maj :: "32 word \<Rightarrow> 32 word \<Rightarrow> 32 word \<Rightarrow> 32 word" where
  "Maj x y z = (x AND y) XOR (x AND z) XOR (y AND z)"

text \<open>The message schedule: \<open>n\<close> further words behind the sixteen of the block.\<close>

fun schedule :: "nat \<Rightarrow> 32 word list \<Rightarrow> 32 word list" where
  "schedule 0 w = w"
| "schedule (Suc n) w =
     (let t = length w
      in schedule n
           (w @ [sigma1 (w ! (t - 2)) + w ! (t - 7) + sigma0 (w ! (t - 15)) + w ! (t - 16)]))"

text \<open>One round, on the state \<open>[a, b, c, d, e, f, g, h]\<close> with the round's constant and
  schedule word.\<close>

definition sha_round :: "32 word list \<Rightarrow> 32 word \<times> 32 word \<Rightarrow> 32 word list" where
  "sha_round s kw =
     (case s of
        [a, b, c, d, e, f, g, h] \<Rightarrow>
          (let t1 = h + Sigma1 e + Ch e f g + fst kw + snd kw;
               t2 = Sigma0 a + Maj a b c
           in [t1 + t2, a, b, c, d + t1, e, f, g])
      | _ \<Rightarrow> s)"

definition compress :: "32 word list \<Rightarrow> 8 word list \<Rightarrow> 32 word list" where
  "compress hs block =
     (let w = schedule 48 (map be32 (chunks_of 4 block))
      in map2 (+) hs (foldl sha_round hs (zip K256 w)))"

definition sha256 :: "8 word list \<Rightarrow> 8 word list" where
  "sha256 m = concat (map bytes_of_word32 (foldl compress H256 (chunks_of 64 (sha_pad m))))"

subsection \<open>Hexadecimal text\<close>

text \<open>\<open>b.toString(16)\<close> for a number: the digits of the radix-16 numeral, the most
  significant first, \<open>0\<close> for zero.\<close>

definition hex_digit :: "nat \<Rightarrow> char" where
  "hex_digit d = (if d < 10 then char_of (48 + d) else char_of (87 + d))"

fun toString16 :: "nat \<Rightarrow> string" where
  "toString16 n = (if n < 16 then [hex_digit n] else toString16 (n div 16) @ [hex_digit (n mod 16)])"

declare toString16.simps [simp del]

text \<open>\<open>s.padStart(n, "0")\<close>.\<close>

definition padStart0 :: "nat \<Rightarrow> string \<Rightarrow> string" where
  "padStart0 n s = replicate (n - length s) (CHR ''0'') @ s"

text \<open>
  \<^verbatim>\<open>
  export const getQuestionHash = async (text: string): Promise<string> => {
    const msgUint8 = new TextEncoder().encode(text.trim().toLowerCase());
    const hashBuffer = await crypto.subtle.digest("SHA-256", msgUint8);
    const hashArray = Array.from(new Uint8Array(hashBuffer));
    return hashArray.map((b) => b.toString(16).padStart(2, "0")).join("");
  };
  \<close>
\<close>

definition getQuestionHash :: "string \<Rightarrow> string" where
  "getQuestionHash text_in =
     (let msgUint8 = encode (toLowerCase (trim text_in));
          hashArray = sha256 msgUint8
      in concat (map (\<lambda>b. padStart0 2 (toString16 (unat b))) hashArray))"

section \<open>Data (types.ts, firebase.ts)\<close>

record AZ104Question =
  q_text :: string
  q_correctAnswer :: string
  q_explanation :: "string option"

record ExtractedQuestion =
  e_id :: string
  e_text :: string
  e_correctAnswer :: string
  e_explanation :: string

record GroundingSource =
  title :: string
  uri :: string

record InsightBlock =
  foundationalRule :: string
  whyItWorks :: string
  analogy :: string
  analogousFoundationalConcept :: string
  commonConfusion :: string
  examEliminationCue :: string
  memoryHook :: string

text \<open>The parsed answer of the AI is cast to \<open>ExtractionResult\<close> without a check, so
  \<open>blocks\<close> may be missing (the code reads \<open>extraction.blocks || []\<close>), and an entry
  of the array may be \<open>null\<close>: \<open>None\<close> in the list.\<close>

record ExtractionResult =
  domain :: string
  blocks :: "InsightBlock option list option"
  sources :: "GroundingSource list option"

datatype ProcessingStatus = IDLE | LOADING | SUCCESS | ERROR

record VaultItem =
  item_hash :: string
  item_domain :: string
  item_foundationalRule :: string
  item_masteredAt :: string

section \<open>The environment of the app\<close>

text \<open>A thrown JavaScript \<open>Error\<close>, with its message.\<close>

datatype exn = Error string

fun message :: "exn \<Rightarrow> string" where
  "message (Error m) = m"

text \<open>The two requests the app sends to the AI: the questions of
  \<open>processInsights\<close>, and the raw text or the PDF of \<open>cleanAndExtractAnswers\<close>.\<close>

datatype payload = RawText string | Pdf string

datatype ai_request =
    InsightRequest "AZ104Question list"
  | CleanRequest payload

text \<open>A grounding chunk's \<open>web\<close> entry (empty strings stand for missing fields), and
  the response of \<open>generateContent\<close>: its \<open>text\<close> and its grounding chunks.\<close>

record Web =
  web_uri :: string
  web_title :: string

record ai_response =
  response_text :: "string option"
  groundingChunks :: "Web option list option"

datatype store_op = GetDoc string | SetDoc string | GetDocs

text \<open>The errors that the JavaScript engine itself throws: the \<open>SyntaxError\<close> of
  \<open>JSON.parse\<close> on a text, and the \<open>TypeError\<close> of reading a property of \<open>null\<close>.\<close>

datatype fault = JsonSyntax string | NullRead string

text \<open>What the app does to the outside, in the order it does it.\<close>

datatype event =
    StoreGet string
  | StoreSet string VaultItem
  | StoreQuery
  | AiRequest ai_request
  | ConsoleWarn string exn
  | ConsoleLog string
  | Alert string

text \<open>
  The world outside the React state:
  \<^item> \<open>docs\<close>: the documents of the collection \<open>az104_master_principles\<close>, by document id;
  \<^item> \<open>configured\<close>: the Firebase configuration has a \<open>projectId\<close>;
  \<^item> \<open>store_fault\<close>: the store operations that fail now (network, rejected by the rules);
  \<^item> \<open>clock\<close>: what \<open>new Date().toISOString()\<close> gives;
  \<^item> \<open>localKey\<close>, \<open>envKey\<close>: \<open>localStorage.getItem('gemini_api_key')\<close> and
    \<open>import.meta.env.VITE_API_KEY\<close>;
  \<^item> \<open>ai\<close>: how the AI service answers a request;
  \<^item> \<open>parse_result\<close>, \<open>parse_questions\<close>: \<open>JSON.parse\<close> at the two types it is cast
    to, \<open>None\<close> for a \<open>SyntaxError\<close>;
  \<^item> \<open>engine_error\<close>: the error object of a fault of the engine, with the message that
    this engine gives it;
  \<^item> \<open>trace\<close>: the events so far.
\<close>

record world =
  docs :: "(string \<times> VaultItem) list"
  configured :: bool
  store_fault :: "store_op \<Rightarrow> exn option"
  clock :: string
  localKey :: "string option"
  envKey :: "string option"
  ai :: "ai_request \<Rightarrow> exn + ai_response"
  parse_result :: "string \<Rightarrow> ExtractionResult option"
  parse_questions :: "string \<Rightarrow> ExtractedQuestion list option"
  engine_error :: "fault \<Rightarrow> exn"
  trace :: "event list"

text \<open>A computation that may throw and may change the world.\<close>

type_synonym 'a io = "world \<Rightarrow> (exn + 'a) \<times> world"

definition return_io :: "'a \<Rightarrow> 'a io" where
  "return_io x = (\<lambda>w. (Inr x, w))"

definition throw_io :: "exn \<Rightarrow> 'a io" where
  "throw_io e = (\<lambda>w. (Inl e, w))"

text \<open>A fault of the engine: its error is thrown.\<close>

definition throw_fault :: "fault \<Rightarrow> 'a io" where
  "throw_fault f = (\<lambda>w. throw_io (engine_error w f) w)"

definition bind_io :: "'a io \<Rightarrow> ('a \<Rightarrow> 'b io) \<Rightarrow> 'b io" where
  "bind_io m f =
     (\<lambda>w. case m w of (Inl e, w') \<Rightarrow> (Inl e, w') | (Inr x, w') \<Rightarrow> f x w')"

text \<open>\<open>try { m } catch (e) { h e }\<close>.\<close>

definition catch_io :: "'a io \<Rightarrow> (exn \<Rightarrow> 'a io) \<Rightarrow> 'a io" where
  "catch_io m h =
     (\<lambda>w. case m w of (Inl e, w') \<Rightarrow> h e w' | (Inr x, w') \<Rightarrow> (Inr x, w'))"

definition emit :: "event \<Rightarrow> world \<Rightarrow> world" where
  "emit ev w = w\<lparr>trace := trace w @ [ev]\<rparr>"

definition console_warn :: "string \<Rightarrow> exn \<Rightarrow> unit io" where
  "console_warn m e = (\<lambda>w. (Inr (), emit (ConsoleWarn m e) w))"

definition console_log :: "string \<Rightarrow> unit io" where
  "console_log m = (\<lambda>w. (Inr (), emit (ConsoleLog m) w))"

definition alert :: "string \<Rightarrow> unit io" where
  "alert m = (\<lambda>w. (Inr (), emit (Alert m) w))"

subsection \<open>The document store\<close>

text \<open>\<open>getDoc(doc(db, COLLECTION_NAME, h))\<close>: the request is sent; it fails, or gives the
  document of that id if there is one.\<close>

definition getDoc :: "string \<Rightarrow> VaultItem option io" where
  "getDoc h =
     (\<lambda>w. case store_fault w (GetDoc h) of
             Some e \<Rightarrow> (Inl e, emit (StoreGet h) w)
           | None \<Rightarrow> (Inr (map_of (docs w) h), emit (StoreGet h) w))"

text \<open>\<open>setDoc(doc(db, COLLECTION_NAME, h), item)\<close> with no merge option: the document of
  that id is created, or replaced as a whole.\<close>

definition setDoc :: "string \<Rightarrow> VaultItem \<Rightarrow> unit io" where
  "setDoc h item =
     (\<lambda>w. case store_fault w (SetDoc h) of
             Some e \<Rightarrow> (Inl e, emit (StoreSet h item) w)
           | None \<Rightarrow> (Inr (), emit (StoreSet h item) (w\<lparr>docs := AList.update h item (docs w)\<rparr>)))"

text \<open>Insertion into a list that is ordered by \<open>masteredAt\<close>, the greatest first.\<close>

fun insert_desc :: "VaultItem \<Rightarrow> VaultItem list \<Rightarrow> VaultItem list" where
  "insert_desc x [] = [x]"
| "insert_desc x (y # ys) =
     (if item_masteredAt y \<le> item_masteredAt x then x # y # ys else y # insert_desc x ys)"

definition order_desc :: "VaultItem list \<Rightarrow> VaultItem list" where
  "order_desc xs = foldr insert_desc xs []"

text \<open>\<open>getDocs(query(collection(db, COLLECTION_NAME), orderBy("masteredAt", "desc")))\<close>:
  all documents of the collection, ordered by the store. \<open>masteredAt\<close> is a string field,
  which the store compares code unit by code unit.\<close>

definition getDocs :: "VaultItem list io" where
  "getDocs =
     (\<lambda>w. case store_fault w GetDocs of
             Some e \<Rightarrow> (Inl e, emit StoreQuery w)
           | None \<Rightarrow> (Inr (order_desc (map snd (docs w))), emit StoreQuery w))"

text \<open>\<open>ai.models.generateContent(...)\<close>: the request goes out and the service answers
  or fails.\<close>

definition generateContent :: "ai_request \<Rightarrow> ai_response io" where
  "generateContent req =
     (\<lambda>w. case ai w req of
             Inl e \<Rightarrow> (Inl e, emit (AiRequest req) w)
           | Inr r \<Rightarrow> (Inr r, emit (AiRequest req) w))"

section \<open>The vault service (firebase.ts)\<close>

text \<open>
  \<^verbatim>\<open>
  const getDb = (): Firestore => {
    if (dbInstance) return dbInstance;
    const config = getFirebaseConfig();
    if (!config.projectId) throw new Error("Firebase not configured");
    ...
  \<close>
  \<open>configured\<close> says that a handle is at hand: the cached one, or a configuration with a
  \<open>projectId\<close>.
\<close>

definition getDb :: "unit io" where
  "getDb = (\<lambda>w. if configured w then (Inr (), w) else (Inl (Error ''Firebase not configured''), w))"

definition now_iso :: "string io" where
  "now_iso = (\<lambda>w. (Inr (clock w), w))"

text \<open>
  \<^verbatim>\<open>
  export const checkDuplicate = async (hash: string): Promise<boolean> => {
    try {
      const db = getDb();
      const docRef = doc(db, COLLECTION_NAME, hash);
      const docSnap = await getDoc(docRef);
      return docSnap.exists();
    } catch (e) {
      return false;
    }
  };
  \<close>
\<close>

definition checkDuplicate :: "string \<Rightarrow> bool io" where
  "checkDuplicate h =
     catch_io
       (bind_io getDb (\<lambda>db. bind_io (getDoc h) (\<lambda>docSnap. return_io (docSnap \<noteq> None))))
       (\<lambda>e. return_io False)"

text \<open>
  \<^verbatim>\<open>
  export const saveToVault = async (hash: string, domain: string, rule: string) => {
    try {
      const db = getDb();
      const docRef = doc(db, COLLECTION_NAME, hash);
      await setDoc(docRef, {
        masteredAt: new Date().toISOString(), domain, foundationalRule: rule, hash
      });
    } catch (e) {}
  };
  \<close>
\<close>

definition saveToVault :: "string \<Rightarrow> string \<Rightarrow> string \<Rightarrow> unit io" where
  "saveToVault h dmn rule =
     catch_io
       (bind_io getDb (\<lambda>db. bind_io now_iso (\<lambda>t.
          setDoc h \<lparr>item_hash = h, item_domain = dmn, item_foundationalRule = rule,
                    item_masteredAt = t\<rparr>)))
       (\<lambda>e. return_io ())"

text \<open>
  \<^verbatim>\<open>
  export const fetchVault = async (): Promise<VaultItem[]> => {
    try {
      const db = getDb();
      const q = query(collection(db, COLLECTION_NAME), orderBy("masteredAt", "desc"));
      const querySnapshot = await getDocs(q);
      return querySnapshot.docs.map(doc => doc.data() as VaultItem);
    } catch (e) {
      return [];
    }
  };
  \<close>
\<close>

definition fetchVault :: "VaultItem list io" where
  "fetchVault =
     catch_io (bind_io getDb (\<lambda>db. bind_io getDocs (\<lambda>items. return_io items)))
       (\<lambda>e. return_io [])"

section \<open>The AI service (geminiService.ts)\<close>

text \<open>
  \<^verbatim>\<open>
  const getApiKey = (): string => {
    const localKey = localStorage.getItem('gemini_api_key');
    if (localKey) return localKey;
    return import.meta.env.VITE_API_KEY || '';
  };
  \<close>
\<close>

definition getApiKey :: "world \<Rightarrow> string" where
  "getApiKey w =
     (case localKey w of
        Some k \<Rightarrow> if k \<noteq> [] then k else (case envKey w of Some v \<Rightarrow> v | None \<Rightarrow> [])
      | None \<Rightarrow> (case envKey w of Some v \<Rightarrow> v | None \<Rightarrow> []))"

definition no_api_key :: exn where
  "no_api_key = Error ''No API key configured. Please add your Gemini API key in Settings.''"

definition invalid_structure :: exn where
  "invalid_structure = Error ''Invalid structure returned from AI. Try a smaller batch.''"

text \<open>The \<open>SyntaxError\<close> of \<open>JSON.parse\<close> on a text; its message is the engine's.\<close>

definition syntax_error :: "string \<Rightarrow> 'a io" where
  "syntax_error s = throw_fault (JsonSyntax s)"

text \<open>
  \<^verbatim>\<open>
  export const cleanAndExtractAnswers = async (rawText, pdfBase64?) => {
    const apiKey = getApiKey();
    if (!apiKey) {
      throw new Error('No API key configured. Please add your Gemini API key in Settings.');
    }
    ...
    if (pdfBase64) { parts.push({ inlineData: { mimeType: 'application/pdf', data: pdfBase64 } }); }
    else { parts.push({ text: `RAW INPUT DATA:\n${rawText}` }); }
    const response = await ai.models.generateContent({ ... });
    const text = response.text || '[]';
    return JSON.parse(text) as ExtractedQuestion[];
  };
  \<close>
\<close>

definition cleanAndExtractAnswers :: "string \<Rightarrow> string option \<Rightarrow> ExtractedQuestion list io" where
  "cleanAndExtractAnswers rawText pdfBase64 =
     (\<lambda>w. if getApiKey w = [] then throw_io no_api_key w
           else bind_io
                  (generateContent
                     (CleanRequest
                        (case pdfBase64 of
                           Some d \<Rightarrow> if d \<noteq> [] then Pdf d else RawText rawText
                         | None \<Rightarrow> RawText rawText)))
                  (\<lambda>response.
                     let text_out =
                           (case response_text response of
                              Some t \<Rightarrow> if t \<noteq> [] then t else ''[]''
                            | None \<Rightarrow> ''[]'')
                     in (\<lambda>w'. case parse_questions w' text_out of
                                 Some qs \<Rightarrow> return_io qs w'
                               | None \<Rightarrow> syntax_error text_out w')) w)"

abbreviation BQ :: char where
  "BQ \<equiv> CHR 0x60"

text \<open>\<open>s.replace(/```json\n?|\n?```/g, '')\<close>: at each position the first alternative is
  tried before the second, and an optional line feed is taken when it is there.\<close>

function strip_fences :: "string \<Rightarrow> string" where
  "strip_fences [] = []"
| "strip_fences (c # cs) =
     (if prefix ([BQ, BQ, BQ] @ ''json'' @ [NL]) (c # cs) then strip_fences (drop 7 cs)
      else if prefix ([BQ, BQ, BQ] @ ''json'') (c # cs) then strip_fences (drop 6 cs)
      else if prefix [NL, BQ, BQ, BQ] (c # cs) then strip_fences (drop 3 cs)
      else if prefix [BQ, BQ, BQ] (c # cs) then strip_fences (drop 2 cs)
      else c # strip_fences cs)"
  by pat_completeness auto
termination
  by (relation "measure length") auto

definition grounding_sources :: "ai_response \<Rightarrow> GroundingSource list" where
  "grounding_sources response =
     (case groundingChunks response of
        None \<Rightarrow> []
      | Some chunks \<Rightarrow>
          concat (map (\<lambda>chunk. case chunk of
                                  None \<Rightarrow> []
                                | Some wb \<Rightarrow>
                                    if web_uri wb \<noteq> [] \<and> web_title wb \<noteq> []
                                    then [\<lparr>title = web_title wb, uri = web_uri wb\<rparr>]
                                    else [])
                      chunks))"

text \<open>\<open>response.text || '{}'\<close>.\<close>

definition textOutput :: "ai_response \<Rightarrow> string" where
  "textOutput response =
     (case response_text response of
        Some t \<Rightarrow> if t \<noteq> [] then t else ''{}''
      | None \<Rightarrow> ''{}'')"

text \<open>
  \<^verbatim>\<open>
  export const processInsights = async (questions: AZ104Question[]) => {
    const apiKey = getApiKey();
    if (!apiKey) {
      throw new Error('No API key configured. Please add your Gemini API key in Settings.');
    }
    const response = await ai.models.generateContent({ ... JSON.stringify(questions) ... });
    const sources: GroundingSource[] = [];
    ... sources.push({ title: chunk.web.title, uri: chunk.web.uri }) ...
    const textOutput = response.text || '{}';
    const jsonStr = textOutput.replace(/```json\n?|\n?```/g, '').trim();
    try {
      const result = JSON.parse(jsonStr) as ExtractionResult;
      return { ...result, sources };
    } catch (err) {
      throw new Error("Invalid structure returned from AI. Try a smaller batch.");
    }
  };
  \<close>
\<close>

definition processInsights :: "AZ104Question list \<Rightarrow> ExtractionResult io" where
  "processInsights qs =
     (\<lambda>w. if getApiKey w = [] then throw_io no_api_key w
           else bind_io (generateContent (InsightRequest qs))
                  (\<lambda>response.
                     let srcs = grounding_sources response;
                         jsonStr = trim (strip_fences (textOutput response))
                     in (\<lambda>w'. case parse_result w' jsonStr of
                                 Some r \<Rightarrow> return_io (r\<lparr>sources := Some srcs\<rparr>) w'
                               | None \<Rightarrow> throw_io invalid_structure w')) w)"

section \<open>The application (App.tsx)\<close>

record PendingBatch =
  questions :: "string list"
  hashes :: "string list"
  duplicateIndices :: "nat list"

text \<open>The React state of \<open>App\<close> that the handlers read and set.\<close>

record app =
  inputText :: string
  result :: "ExtractionResult option"
  status :: ProcessingStatus
  error :: "string option"
  pendingBatch :: "PendingBatch option"
  isApiKeySet :: bool

text \<open>
  \<^verbatim>\<open>
  const stagedCount = (inputText.match(/Question: /g) || []).length;
  const isStagingFull = stagedCount >= 6;
  \<close>
\<close>

definition stagedCount :: "app \<Rightarrow> nat" where
  "stagedCount a = match_count ''Question: '' (inputText a)"

definition isStagingFull :: "app \<Rightarrow> bool" where
  "isStagingFull a = (stagedCount a \<ge> 6)"

text \<open>
  \<^verbatim>\<open>
  const formatted =
    `Question: ${q.text}\nCorrect Answer: ${q.correctAnswer}\nExplanation: ${q.explanation}`;
  \<close>
\<close>

definition formatted :: "ExtractedQuestion \<Rightarrow> string" where
  "formatted q =
     ''Question: '' @ e_text q @ [NL] @ ''Correct Answer: '' @ e_correctAnswer q
       @ [NL] @ ''Explanation: '' @ e_explanation q"

definition limit_reached :: string where
  "limit_reached =
     ''Generator limit reached! (Max 6 questions). Clear the staging area or process the current batch.''"

text \<open>
  \<^verbatim>\<open>
  const handlePushToEngine = (q: ExtractedQuestion) => {
    const currentCount = (inputText.match(/Question: /g) || []).length;
    if (currentCount >= 6) {
      alert("Generator limit reached! ...");
      return;
    }
    const formatted = ...;
    setInputText(prev => prev ? `${prev}\n\n${formatted}` : formatted);
  };
  \<close>
  The handler runs on the state it was rendered with, so \<open>inputText\<close> and \<open>prev\<close> are the
  same text.
\<close>

definition handlePushToEngine :: "ExtractedQuestion \<Rightarrow> app \<Rightarrow> app io" where
  "handlePushToEngine q a =
     (let currentCount = match_count ''Question: '' (inputText a)
      in if currentCount \<ge> 6 then bind_io (alert limit_reached) (\<lambda>u. return_io a)
         else return_io
                (a\<lparr>inputText :=
                     (if inputText a \<noteq> [] then inputText a @ [NL, NL] @ formatted q
                      else formatted q)\<rparr>))"

text \<open>
  \<^verbatim>\<open>
  for (let i = 0; i < (extraction.blocks || []).length; i++) {
    if (hashes[i]) {
      await saveToVault(hashes[i], extraction.domain, extraction.blocks[i].foundationalRule);
    }
  }
  \<close>
  \<open>save_blocks hs d bs i\<close> is the loop from index \<open>i\<close> on, \<open>bs\<close> the blocks from \<open>i\<close>.
  \<open>hashes[i]\<close> is \<open>undefined\<close> behind the end of the array, and an empty string is not
  taken either. The arguments of the call are evaluated before the call: where the hash
  is taken and the entry \<open>extraction.blocks[i]\<close> is \<open>null\<close>, reading its
  \<open>foundationalRule\<close> throws a \<open>TypeError\<close>, which ends the loop.
\<close>

fun save_blocks :: "string list \<Rightarrow> string \<Rightarrow> InsightBlock option list \<Rightarrow> nat \<Rightarrow> unit io" where
  "save_blocks hs d [] i = return_io ()"
| "save_blocks hs d (b # bs) i =
     bind_io
       (if i < length hs \<and> hs ! i \<noteq> []
        then (case b of
                None \<Rightarrow> throw_fault (NullRead ''foundationalRule'')
              | Some blk \<Rightarrow> saveToVault (hs ! i) d (foundationalRule blk))
        else return_io ())
       (\<lambda>u. save_blocks hs d bs (Suc i))"

definition vault_sync_failed :: string where
  "vault_sync_failed = ''Vault sync failed. Check Firebase config in Integration center.''"

text \<open>
  \<^verbatim>\<open>
  const executeProcessing = async (batch: string[], hashes: string[]) => {
    if (batch.length === 0) {
      setError("No new questions to process.");
      setStatus(ProcessingStatus.IDLE);
      setPendingBatch(null);
      return;
    }
    if (!isApiKeySet) {
      setError("AI Logic Engine is offline. Please configure your API key.");
      setStatus(ProcessingStatus.ERROR);
      return;
    }
    setStatus(ProcessingStatus.LOADING);
    setError(null);
    setPendingBatch(null);
    try {
      const formattedQuestions = batch.map(rq => ({
        text: rq, correctAnswer: 'Verified', explanation: 'Verified' }));
      const extraction = await processInsights(formattedQuestions);
      try {
        for (...) { ... await saveToVault(...) ... }
      } catch (vaultErr) {
        console.warn("Vault sync failed. Check Firebase config in Integration center.", vaultErr);
      }
      setResult(extraction);
      setStatus(ProcessingStatus.SUCCESS);
    } catch (err: any) {
      setError(err.message || 'Processing failed. Try a smaller batch.');
      setStatus(ProcessingStatus.ERROR);
    }
  };
  \<close>
\<close>

definition formattedQuestions :: "string list \<Rightarrow> AZ104Question list" where
  "formattedQuestions batch =
     map (\<lambda>rq. \<lparr>q_text = rq, q_correctAnswer = ''Verified'', q_explanation = Some ''Verified''\<rparr>)
       batch"

definition executeProcessing :: "string list \<Rightarrow> string list \<Rightarrow> app \<Rightarrow> app io" where
  "executeProcessing batch hs a =
     (if batch = []
      then return_io (a\<lparr>error := Some ''No new questions to process.'', status := IDLE,
                        pendingBatch := None\<rparr>)
      else if \<not> isApiKeySet a
      then return_io
             (a\<lparr>error := Some ''AI Logic Engine is offline. Please configure your API key.'',
                status := ERROR\<rparr>)
      else
        (let a1 = a\<lparr>status := LOADING, error := None, pendingBatch := None\<rparr>
         in catch_io
              (bind_io (processInsights (formattedQuestions batch))
                 (\<lambda>extraction.
                    bind_io
                      (catch_io
                         (save_blocks hs (domain extraction)
                            (case blocks extraction of Some bs \<Rightarrow> bs | None \<Rightarrow> []) 0)
                         (\<lambda>vaultErr. console_warn vault_sync_failed vaultErr))
                      (\<lambda>u. return_io (a1\<lparr>result := Some extraction, status := SUCCESS\<rparr>))))
              (\<lambda>err. return_io
                       (a1\<lparr>error :=
                             Some (if message err \<noteq> [] then message err
                                   else ''Processing failed. Try a smaller batch.''),
                           status := ERROR\<rparr>))))"

text \<open>\<open>inputText.trim().split(/\n\s*\n/).filter(c => c.includes("Question:")).slice(0, 6)\<close>\<close>

definition rawQuestions :: "string \<Rightarrow> string list" where
  "rawQuestions t =
     take 6 (filter (\<lambda>c. includes_str c ''Question:'') (split_blank [] (trim t)))"

text \<open>\<open>Promise.all(xs.map(f))\<close>: the calls are started in the order of the array.\<close>

fun mapM_io :: "('a \<Rightarrow> 'b io) \<Rightarrow> 'a list \<Rightarrow> 'b list io" where
  "mapM_io f [] = return_io []"
| "mapM_io f (x # xs) = bind_io (f x) (\<lambda>y. bind_io (mapM_io f xs) (\<lambda>ys. return_io (y # ys)))"

text \<open>\<open>duplicates.map((d, i) => d ? i : -1).filter(i => i !== -1)\<close>\<close>

definition indices_of_duplicates :: "bool list \<Rightarrow> nat list" where
  "indices_of_duplicates ds = filter (\<lambda>i. ds ! i) [0..<length ds]"

definition no_valid_questions :: exn where
  "no_valid_questions =
     Error ''No valid questions detected. Ensure you push questions from the Scraper first.''"

text \<open>
  \<^verbatim>\<open>
  const handleInitialScan = useCallback(async () => {
    if (!inputText.trim()) return;
    setStatus(ProcessingStatus.LOADING);
    setError(null);
    try {
      const rawQuestions = inputText.trim().split(/\n\s*\n/)
        .filter(c => c.includes("Question:")).slice(0, 6);
      if (rawQuestions.length === 0) {
        throw new Error("No valid questions detected. ...");
      }
      const hashes = await Promise.all(rawQuestions.map(rq => getQuestionHash(rq)));
      let duplicates: boolean[] = new Array(hashes.length).fill(false);
      try {
        duplicates = await Promise.all(hashes.map(h => checkDuplicate(h)));
      } catch (e) {
        console.log("Skipping duplicate check (Firebase not configured)");
      }
      const duplicateIndices = duplicates.map((d, i) => d ? i : -1).filter(i => i !== -1);
      if (duplicateIndices.length > 0) {
        setPendingBatch({ questions: rawQuestions, hashes, duplicateIndices });
        setStatus(ProcessingStatus.IDLE);
      } else {
        await executeProcessing(rawQuestions, hashes);
      }
    } catch (err: any) {
      setError(err.message);
      setStatus(ProcessingStatus.ERROR);
    }
  }, [inputText, isApiKeySet]);
  \<close>
\<close>

definition handleInitialScan :: "app \<Rightarrow> app io" where
  "handleInitialScan a =
     (if trim (inputText a) = [] then return_io a
      else
        (let a1 = a\<lparr>status := LOADING, error := None\<rparr>;
             rqs = rawQuestions (inputText a)
         in catch_io
              (bind_io (if rqs = [] then throw_io no_valid_questions else return_io ())
                 (\<lambda>u. let hs = map getQuestionHash rqs
                      in bind_io
                           (catch_io (mapM_io checkDuplicate hs)
                              (\<lambda>e. bind_io
                                     (console_log
                                        ''Skipping duplicate check (Firebase not configured)'')
                                     (\<lambda>u. return_io (replicate (length hs) False))))
                           (\<lambda>duplicates.
                              let dupIdx = indices_of_duplicates duplicates
                              in if dupIdx \<noteq> []
                                 then return_io
                                        (a1\<lparr>pendingBatch :=
                                              Some \<lparr>questions = rqs, hashes = hs,
                                                    duplicateIndices = dupIdx\<rparr>,
                                            status := IDLE\<rparr>)
                                 else executeProcessing rqs hs a1)))
              (\<lambda>err. return_io (a1\<lparr>error := Some (message err), status := ERROR\<rparr>))))"

text \<open>\<open>xs.filter((_, i) => !dups.includes(i))\<close>\<close>

definition without_indices :: "nat list \<Rightarrow> 'a list \<Rightarrow> 'a list" where
  "without_indices dups xs =
     map fst (filter (\<lambda>(x, i). i \<notin> set dups) (zip xs [0..<length xs]))"

text \<open>
  \<^verbatim>\<open>
  onSkipDuplicates={() => executeProcessing(
    pendingBatch.questions.filter((_, i) => !pendingBatch.duplicateIndices.includes(i)),
    pendingBatch.hashes.filter((_, i) => !pendingBatch.duplicateIndices.includes(i))
  )}
  onProcessAll={() => executeProcessing(pendingBatch.questions, pendingBatch.hashes)}
  \<close>
  The buttons are shown with the prompt of a pending batch; without one,
  \<open>pendingBatch\<close> is \<open>null\<close> and reading its \<open>questions\<close> throws a \<open>TypeError\<close>.
\<close>

definition onSkipDuplicates :: "app \<Rightarrow> app io" where
  "onSkipDuplicates a =
     (case pendingBatch a of
        None \<Rightarrow> throw_fault (NullRead ''questions'')
      | Some pb \<Rightarrow>
          executeProcessing (without_indices (duplicateIndices pb) (questions pb))
            (without_indices (duplicateIndices pb) (hashes pb)) a)"

definition onProcessAll :: "app \<Rightarrow> app io" where
  "onProcessAll a =
     (case pendingBatch a of
        None \<Rightarrow> throw_fault (NullRead ''questions'')
      | Some pb \<Rightarrow> executeProcessing (questions pb) (hashes pb) a)"

text \<open>
  \<^verbatim>\<open>
  const handleReset = () => {
    setInputText(''); setResult(null); setStatus(ProcessingStatus.IDLE);
    setError(null); setPendingBatch(null);
    localStorage.removeItem(STORAGE_KEY_INPUT);
  };
  \<close>
\<close>

definition handleReset :: "app \<Rightarrow> app io" where
  "handleReset a =
     return_io (a\<lparr>inputText := [], result := None, status := IDLE, error := None,
                  pendingBatch := None\<rparr>)"

section \<open>The single-file application (index.tsx)\<close>

text \<open>
  \<^verbatim>\<open>
  const currentStagedCount = (inputText.match(/Question:/gi) || []).length;
  \<close>
  With the flag \<open>i\<close> the letters of the pattern match in either case; on the code units
  of the model that is a match of the pattern in small letters on the text in small
  letters.
\<close>

definition currentStagedCount :: "string \<Rightarrow> nat" where
  "currentStagedCount t = match_count (toLowerCase ''Question:'') (toLowerCase t)"

text \<open>
  \<^verbatim>\<open>
  const handlePushToEngine = (q: ExtractedQuestion) => {
    setInputText(prev => {
      const currentCount = (prev.match(/Question:/gi) || []).length;
      if (currentCount >= 6) {
        return prev; // Strictly deny
      }
      const formatted = ...;
      return prev.trim() ? `${prev.trim()}\n\n${formatted}` : formatted;
    });
  };
  \<close>
  The model is the function given to \<open>setInputText\<close>, from the old text to the new.
\<close>

definition handlePushToEngine_index :: "ExtractedQuestion \<Rightarrow> string \<Rightarrow> string" where
  "handlePushToEngine_index q prev =
     (let currentCount = currentStagedCount prev
      in if currentCount \<ge> 6 then prev
         else if trim prev \<noteq> [] then trim prev @ [NL, NL] @ formatted q
         else formatted q)"

text \<open>
  \<^verbatim>\<open>
  const getDb = () => {
    const config = getFirebaseConfig();
    if (!config.projectId) return null;
    ...
  const saveToVault = async (hash, domain, rule) => {
    try {
      const db = getDb();
      if (!db) return;
      const docRef = doc(db, COLLECTION_NAME, hash);
      await setDoc(docRef, { masteredAt: new Date().toISOString(), domain, foundationalRule: rule, hash });
    } catch (e) {}
  };
  \<close>
\<close>

definition saveToVault_index :: "string \<Rightarrow> string \<Rightarrow> string \<Rightarrow> unit io" where
  "saveToVault_index h dmn rule =
     catch_io
       (\<lambda>w. if \<not> configured w then return_io () w
             else bind_io now_iso (\<lambda>t.
                    setDoc h \<lparr>item_hash = h, item_domain = dmn, item_foundationalRule = rule,
                              item_masteredAt = t\<rparr>) w)
       (\<lambda>e. return_io ())"

text \<open>
  \<^verbatim>\<open>
  const processInsights = async (questions: AZ104Question[]) => {
    const ai = new GoogleGenAI({ apiKey: process.env.API_KEY! });
    const response = await ai.models.generateContent({ ... JSON.stringify(questions) ... });
    const sources: GroundingSource[] = [];
    response.candidates?.[0]?.groundingMetadata?.groundingChunks?.forEach((chunk: any) => {
      if (chunk.web) sources.push({ title: chunk.web.title, uri: chunk.web.uri });
    });
    return { ...JSON.parse(response.text || '{}'), sources };
  };
  \<close>
\<close>

definition processInsights_index :: "AZ104Question list \<Rightarrow> ExtractionResult io" where
  "processInsights_index qs =
     bind_io (generateContent (InsightRequest qs))
       (\<lambda>response.
          let srcs =
                (case groundingChunks response of
                   None \<Rightarrow> []
                 | Some chunks \<Rightarrow>
                     concat (map (\<lambda>chunk. case chunk of
                                             None \<Rightarrow> []
                                           | Some wb \<Rightarrow> [\<lparr>title = web_title wb, uri = web_uri wb\<rparr>])
                                 chunks))
          in (\<lambda>w'. case parse_result w' (textOutput response) of
                      Some r \<Rightarrow> return_io (r\<lparr>sources := Some srcs\<rparr>) w'
                    | None \<Rightarrow> syntax_error (textOutput response) w'))"

text \<open>The loop of \<open>handleProcess\<close> over the blocks, as \<open>save_blocks\<close> with the
  \<open>saveToVault\<close> of this file.\<close>

fun save_blocks_index :: "string list \<Rightarrow> string \<Rightarrow> InsightBlock option list \<Rightarrow> nat \<Rightarrow> unit io" where
  "save_blocks_index hs d [] i = return_io ()"
| "save_blocks_index hs d (b # bs) i =
     bind_io
       (if i < length hs \<and> hs ! i \<noteq> []
        then (case b of
                None \<Rightarrow> throw_fault (NullRead ''foundationalRule'')
              | Some blk \<Rightarrow> saveToVault_index (hs ! i) d (foundationalRule blk))
        else return_io ())
       (\<lambda>u. save_blocks_index hs d bs (Suc i))"

text \<open>\<open>inputText.trim().split(/\n\s*\n/).filter(c => c.toLowerCase().includes("question:")).slice(0, 6)\<close>\<close>

definition raw_index :: "string \<Rightarrow> string list" where
  "raw_index t =
     take 6 (filter (\<lambda>c. includes_str (toLowerCase c) ''question:'') (split_blank [] (trim t)))"

record app_index =
  inputText_index :: string
  result_index :: "ExtractionResult option"
  status_index :: ProcessingStatus

text \<open>
  \<^verbatim>\<open>
  const handleProcess = async () => {
    if (!inputText.trim()) return;
    setStatus(ProcessingStatus.LOADING);
    try {
      // Hard limit on processing even if user somehow pastes more
      const raw = inputText.trim().split(/\n\s*\n/)
        .filter(c => c.toLowerCase().includes("question:")).slice(0, 6);
      const extraction = await processInsights(raw.map(rq => ({ text: rq, correctAnswer: 'Verified' })));
      const hashes = await Promise.all(raw.map(getQuestionHash));
      for (let i = 0; i < (extraction.blocks || []).length; i++) {
        if (hashes[i]) await saveToVault(hashes[i], extraction.domain, extraction.blocks[i].foundationalRule);
      }
      setResult(extraction);
      setStatus(ProcessingStatus.SUCCESS);
    } catch (err) { setStatus(ProcessingStatus.ERROR); }
  };
  \<close>
\<close>

definition handleProcess :: "app_index \<Rightarrow> app_index io" where
  "handleProcess a =
     (if trim (inputText_index a) = [] then return_io a
      else
        (let a1 = a\<lparr>status_index := LOADING\<rparr>;
             raw = raw_index (inputText_index a)
         in catch_io
              (bind_io
                 (processInsights_index
                    (map (\<lambda>rq. \<lparr>q_text = rq, q_correctAnswer = ''Verified'', q_explanation = None\<rparr>)
                       raw))
                 (\<lambda>extraction.
                    bind_io
                      (save_blocks_index (map getQuestionHash raw) (domain extraction)
                         (case blocks extraction of Some bs \<Rightarrow> bs | None \<Rightarrow> []) 0)
                      (\<lambda>u. return_io
                             (a1\<lparr>result_index := Some extraction, status_index := SUCCESS\<rparr>))))
              (\<lambda>err. return_io (a1\<lparr>status_index := ERROR\<rparr>))))"

section \<open>The vault view (VaultView.tsx)\<close>

subsection \<open>Dates\<close>

text \<open>
  A time value is a number of milliseconds since 1970-01-01T00:00:00Z; \<open>None\<close> is
  \<open>NaN\<close>, the time value of an invalid date. What the engine and the time zone of the
  browser decide is a parameter of the model:
  \<^item> \<open>Date_parse\<close>: the time value of \<open>new Date(s)\<close> for a string \<open>s\<close>;
  \<^item> \<open>LocalTZA\<close>: ECMAScript's \<open>LocalTZA(t, isUTC)\<close>, local time minus UTC in
    milliseconds, at the UTC time \<open>t\<close> when \<open>isUTC\<close> is true and at the local time \<open>t\<close>
    when it is false.
\<close>

record platform =
  Date_parse :: "string \<Rightarrow> int option"
  LocalTZA :: "int \<Rightarrow> bool \<Rightarrow> int"

definition ms_per_day :: int where
  "ms_per_day = 86400000"

text \<open>\<open>new Date(s).getTime()\<close>\<close>

definition Date_getTime :: "platform \<Rightarrow> string \<Rightarrow> int option" where
  "Date_getTime p s = Date_parse p s"

text \<open>The abstract operations of ECMAScript on time values.\<close>

definition TimeClip :: "int \<Rightarrow> int option" where
  "TimeClip t = (if \<bar>t\<bar> > 8640000000000000 then None else Some t)"

definition LocalTime :: "platform \<Rightarrow> int \<Rightarrow> int" where
  "LocalTime p t = t + LocalTZA p t True"

definition UTC :: "platform \<Rightarrow> int \<Rightarrow> int" where
  "UTC p t = t - LocalTZA p t False"

definition Day :: "int \<Rightarrow> int" where
  "Day t = t div ms_per_day"

definition MakeTime :: "int \<Rightarrow> int \<Rightarrow> int \<Rightarrow> int \<Rightarrow> int" where
  "MakeTime h m s ms = h * 3600000 + m * 60000 + s * 1000 + ms"

definition MakeDate :: "int \<Rightarrow> int \<Rightarrow> int" where
  "MakeDate day time = day * ms_per_day + time"

text \<open>\<open>date.setHours(h, m, s, ms)\<close>: the time of day is set in local time, on the local
  day of the date, and the new time value is returned. An invalid date stays invalid.\<close>

definition setHours :: "platform \<Rightarrow> int option \<Rightarrow> int \<Rightarrow> int \<Rightarrow> int \<Rightarrow> int \<Rightarrow> int option" where
  "setHours p t h m s ms =
     (case t of
        None \<Rightarrow> None
      | Some u \<Rightarrow> TimeClip (UTC p (MakeDate (Day (LocalTime p u)) (MakeTime h m s ms))))"

subsection \<open>The filter\<close>

text \<open>
  \<^verbatim>\<open>
  const filteredItems = items.filter(item => {
    const matchesSearch =
      item.foundationalRule.toLowerCase().includes(search.toLowerCase()) ||
      item.domain.toLowerCase().includes(search.toLowerCase());
    const itemDate = new Date(item.masteredAt).getTime();
    const start = startDate ? new Date(startDate).setHours(0, 0, 0, 0) : null;
    const end = endDate ? new Date(endDate).setHours(23, 59, 59, 999) : null;
    const matchesStartDate = start ? itemDate >= start : true;
    const matchesEndDate = end ? itemDate <= end : true;
    return matchesSearch && matchesStartDate && matchesEndDate;
  });
  \<close>
  \<open>null\<close>, \<open>NaN\<close> and \<open>0\<close> are the values of \<open>start\<close> and \<open>end\<close> that count as false; a
  comparison with \<open>NaN\<close> is false.
\<close>

definition matchesSearch :: "string \<Rightarrow> VaultItem \<Rightarrow> bool" where
  "matchesSearch search item =
     (includes_str (toLowerCase (item_foundationalRule item)) (toLowerCase search)
      \<or> includes_str (toLowerCase (item_domain item)) (toLowerCase search))"

definition start_of :: "platform \<Rightarrow> string \<Rightarrow> int option" where
  "start_of p startDate =
     (if startDate \<noteq> [] then setHours p (Date_getTime p startDate) 0 0 0 0 else None)"

definition end_of :: "platform \<Rightarrow> string \<Rightarrow> int option" where
  "end_of p endDate =
     (if endDate \<noteq> [] then setHours p (Date_getTime p endDate) 23 59 59 999 else None)"

definition matchesStartDate :: "int option \<Rightarrow> int option \<Rightarrow> bool" where
  "matchesStartDate start itemDate =
     (case start of
        None \<Rightarrow> True
      | Some s \<Rightarrow>
          if s = 0 then True else (case itemDate of None \<Rightarrow> False | Some t \<Rightarrow> t \<ge> s))"

definition matchesEndDate :: "int option \<Rightarrow> int option \<Rightarrow> bool" where
  "matchesEndDate end_t itemDate =
     (case end_t of
        None \<Rightarrow> True
      | Some e \<Rightarrow>
          if e = 0 then True else (case itemDate of None \<Rightarrow> False | Some t \<Rightarrow> t \<le> e))"

definition filteredItems ::
  "platform \<Rightarrow> string \<Rightarrow> string \<Rightarrow> string \<Rightarrow> VaultItem list \<Rightarrow> VaultItem list" where
  "filteredItems p search startDate endDate items =
     filter (\<lambda>item.
               matchesSearch search item
               \<and> matchesStartDate (start_of p startDate) (Date_getTime p (item_masteredAt item))
               \<and> matchesEndDate (end_of p endDate) (Date_getTime p (item_masteredAt item)))
       items"

section \<open>Notions used in the statements\<close>

text \<open>The existence check finds the document of \<open>h\<close>: the store is configured, the
  lookup succeeds, and the document is there.\<close>

definition lookup_finds :: "world \<Rightarrow> string \<Rightarrow> bool" where
  "lookup_finds w h =
     (configured w \<and> store_fault w (GetDoc h) = None \<and> map_of (docs w) h \<noteq> None)"

text \<open>The world after the existence checks of \<open>hs\<close>: one lookup request for each hash, in
  order, when the store is configured, and none when it is not.\<close>

definition checked :: "string list \<Rightarrow> world \<Rightarrow> world" where
  "checked hs w = (if configured w then w\<lparr>trace := trace w @ map StoreGet hs\<rparr> else w)"

subsection \<open>Example values\<close>

definition ex_block :: InsightBlock where
  "ex_block =
     \<lparr>foundationalRule = ''Scope is inherited downwards'', whyItWorks = ''w'', analogy = ''a'',
      analogousFoundationalConcept = ''c'', commonConfusion = ''x'',
      examEliminationCue = ''e'', memoryHook = ''m''\<rparr>"

definition ex_result :: ExtractionResult where
  "ex_result = \<lparr>domain = ''Identity'', blocks = Some [Some ex_block], sources = None\<rparr>"

definition ex_response :: ai_response where
  "ex_response = \<lparr>response_text = Some ''{}'', groundingChunks = None\<rparr>"

definition ex_item :: "string \<Rightarrow> VaultItem" where
  "ex_item h =
     \<lparr>item_hash = h, item_domain = ''Storage'', item_foundationalRule = ''Old rule'',
      item_masteredAt = ''2024-01-01T00:00:00.000Z''\<rparr>"

text \<open>An engine that names the fault in the message of its error.\<close>

fun ex_engine :: "fault \<Rightarrow> exn" where
  "ex_engine (JsonSyntax s) = Error (''Unexpected token in JSON: '' @ s)"
| "ex_engine (NullRead p) = Error (''Cannot read properties of null: '' @ p)"

text \<open>A world with the given documents and store faults: the store is configured, an API
  key is in local storage, the AI answers every request with \<open>{}\<close>, and that text parses
  to \<open>ex_result\<close>.\<close>

definition ex_world :: "(string \<times> VaultItem) list \<Rightarrow> (store_op \<Rightarrow> exn option) \<Rightarrow> world" where
  "ex_world ds f =
     \<lparr>docs = ds, configured = True, store_fault = f, clock = ''2024-03-01T10:00:00.000Z'',
      localKey = Some ''key'', envKey = None, ai = (\<lambda>req. Inr ex_response),
      parse_result = (\<lambda>s. if s = ''{}'' then Some ex_result else None),
      parse_questions = (\<lambda>s. None), engine_error = ex_engine, trace = []\<rparr>"

definition ex_app :: "string \<Rightarrow> app" where
  "ex_app t =
     \<lparr>inputText = t, result = None, status = IDLE, error = None, pendingBatch = None,
      isApiKeySet = True\<rparr>"

definition unavailable :: "store_op \<Rightarrow> exn option" where
  "unavailable op = Some (Error ''unavailable'')"

definition healthy :: "store_op \<Rightarrow> exn option" where
  "healthy op = None"

text \<open>A world where the question \<open>Question: a\<close> is in the vault and every store
  operation fails.\<close>

definition w9 :: world where
  "w9 =
     ex_world [(getQuestionHash ''Question: a'', ex_item (getQuestionHash ''Question: a''))]
       unavailable"

text \<open>Extracted questions: a plain one, one whose text has the marker in capital letters
  and with no space behind it, and one whose text has the marker as the app writes it.\<close>

definition ex_q :: ExtractedQuestion where
  "ex_q = \<lparr>e_id = ''q1'', e_text = ''What is RBAC?'', e_correctAnswer = ''B'',
           e_explanation = ''Roles grant access''\<rparr>"

definition ex_q_marked :: ExtractedQuestion where
  "ex_q_marked = \<lparr>e_id = ''q2'', e_text = ''QUESTION:x'', e_correctAnswer = ''B'',
           e_explanation = ''Roles grant access''\<rparr>"

definition six_staged :: string where
  "six_staged = ''Question: 1 Question: 2 Question: 3 Question: 4 Question: 5 Question: 6 ''"

definition six_marks :: string where
  "six_marks = ''question:question:QUESTION:Question:question:question:''"

text \<open>Typing into the staging textarea (\<open>onChange={setInputText}\<close> in App.tsx).\<close>

definition setInputText :: "string \<Rightarrow> app \<Rightarrow> app" where
  "setInputText t a = a\<lparr>inputText := t\<rparr>"

definition ex_q_nested :: ExtractedQuestion where
  "ex_q_nested = \<lparr>e_id = ''q3'', e_text = ''Is Question: nested?'', e_correctAnswer = ''B'',
           e_explanation = ''Roles grant access''\<rparr>"


definition vault_item :: "string \<Rightarrow> string \<Rightarrow> string \<Rightarrow> world \<Rightarrow> VaultItem" where
  "vault_item h d r w =
     \<lparr>item_hash = h, item_domain = d, item_foundationalRule = r, item_masteredAt = clock w\<rparr>"

definition saved :: "string \<Rightarrow> string \<Rightarrow> string \<Rightarrow> world \<Rightarrow> world" where
  "saved h d r w =
     (if configured w
      then emit (StoreSet h (vault_item h d r w))
             (if store_fault w (SetDoc h) = None
              then w\<lparr>docs := AList.update h (vault_item h d r w) (docs w)\<rparr>
              else w)
      else w)"

definition is_StoreSet :: "event \<Rightarrow> bool" where
  "is_StoreSet ev = (case ev of StoreSet h item \<Rightarrow> True | _ \<Rightarrow> False)"

text \<open>The world after the loop over the blocks inside its \<open>try\<close> of \<open>executeProcessing\<close>:
  an error of the loop is written to the console.\<close>

definition synced :: "string list \<Rightarrow> string \<Rightarrow> InsightBlock option list \<Rightarrow> world \<Rightarrow> world" where
  "synced hs d bs w =
     (case save_blocks hs d bs 0 w of
        (Inl e, w') \<Rightarrow> emit (ConsoleWarn vault_sync_failed e) w'
      | (Inr u, w') \<Rightarrow> w')"

definition is_sync :: "event \<Rightarrow> bool" where
  "is_sync ev = (case ev of StoreSet h item \<Rightarrow> True | ConsoleWarn m e \<Rightarrow> True | _ \<Rightarrow> False)"

definition blocks_of :: "ExtractionResult \<Rightarrow> InsightBlock option list" where
  "blocks_of ex = (case blocks ex of Some bs \<Rightarrow> bs | None \<Rightarrow> [])"

definition message_or :: "exn \<Rightarrow> string" where
  "message_or err =
     (if message err \<noteq> [] then message err else ''Processing failed. Try a smaller batch.'')"

definition request_within :: "nat \<Rightarrow> event \<Rightarrow> bool" where
  "request_within n ev =
     (case ev of AiRequest (InsightRequest qs) \<Rightarrow> length qs \<le> n | _ \<Rightarrow> True)"

definition new_events :: "world \<Rightarrow> world \<Rightarrow> event list" where
  "new_events w w' = drop (length (trace w)) (trace w')"

definition pending_within :: "nat \<Rightarrow> app \<Rightarrow> bool" where
  "pending_within n a =
     (case pendingBatch a of None \<Rightarrow> True | Some pb \<Rightarrow> length (questions pb) \<le> n)"

definition batch_index :: "string \<Rightarrow> AZ104Question list" where
  "batch_index t =
     map (\<lambda>rq. \<lparr>q_text = rq, q_correctAnswer = ''Verified'', q_explanation = None\<rparr>)
       (raw_index t)"

definition seven_questions :: string where
  "seven_questions =
     ''Question: 1'' @ [NL, NL] @ ''Question: 2'' @ [NL, NL] @ ''Question: 3'' @ [NL, NL]
     @ ''Question: 4'' @ [NL, NL] @ ''Question: 5'' @ [NL, NL] @ ''Question: 6'' @ [NL, NL]
     @ ''Question: 7''"

definition ex_app_index :: "string \<Rightarrow> app_index" where
  "ex_app_index t = \<lparr>inputText_index = t, result_index = None, status_index = IDLE\<rparr>"

text \<open>The lower-case hexadecimal encoding of a byte string, in the words of the
  specification: two digits for each byte, the high half first, from \<open>0123456789abcdef\<close>.\<close>

definition hex_digits :: string where
  "hex_digits = ''0123456789abcdef''"

definition hex_lower :: "8 word list \<Rightarrow> string" where
  "hex_lower bs =
     concat (map (\<lambda>b. [hex_digits ! (unat b div 16), hex_digits ! (unat b mod 16)]) bs)"

text \<open>Worlds for the AI service: one whose response has the empty text, one with no API
  key, and one whose response is not JSON.\<close>

definition empty_text_response :: ai_response where
  "empty_text_response = \<lparr>response_text = Some [], groundingChunks = None\<rparr>"

definition w7 :: world where
  "w7 = (ex_world [] healthy)\<lparr>ai := (\<lambda>req. Inr empty_text_response)\<rparr>"

definition w7_no_key :: world where
  "w7_no_key = (ex_world [] healthy)\<lparr>localKey := None\<rparr>"

definition w7_bad_json :: world where
  "w7_bad_json =
     (ex_world [] healthy)
       \<lparr>ai := (\<lambda>req. Inr \<lparr>response_text = Some ''not json'', groundingChunks = None\<rparr>)\<rparr>"

text \<open>A world whose store rejects every operation, and one whose store is not
  configured.\<close>

definition w6 :: world where
  "w6 = ex_world [] unavailable"

definition w6_unconfigured :: world where
  "w6_unconfigured = (ex_world [] healthy)\<lparr>configured := False\<rparr>"

text \<open>An answer of the AI whose array of blocks holds \<open>null\<close>, and a world with a
  working store where the AI gives that answer.\<close>

definition null_text :: string where
  "null_text =
     ''{'' @ [CHR 0x22] @ ''domain'' @ [CHR 0x22] @ '':'' @ [CHR 0x22] @ ''Identity'' @ [CHR 0x22]
     @ '','' @ [CHR 0x22] @ ''blocks'' @ [CHR 0x22] @ '':[null]}''"

definition null_result :: ExtractionResult where
  "null_result = \<lparr>domain = ''Identity'', blocks = Some [None], sources = None\<rparr>"

definition w6_null :: world where
  "w6_null =
     (ex_world [] healthy)
       \<lparr>ai := (\<lambda>req. Inr \<lparr>response_text = Some null_text, groundingChunks = None\<rparr>),
        parse_result := (\<lambda>s. if s = null_text then Some null_result else None)\<rparr>"

text \<open>The request for the one question \<open>Question: a\<close>, and the hash of that question.\<close>

definition request_a :: event where
  "request_a = AiRequest (InsightRequest (formattedQuestions [''Question: a'']))"

definition hash_a :: string where
  "hash_a = getQuestionHash ''Question: a''"

subsection \<open>An example platform\<close>

text \<open>
  An engine's reading of the two forms of date string that the app meets: \<open>YYYY-MM-DD\<close>,
  the value of a date input, which ECMAScript reads as midnight UTC of that day, and
  \<open>YYYY-MM-DDTHH:mm:ss.sssZ\<close>, what \<open>toISOString\<close> writes. This engine takes every
  other string, and a day that the month does not have, as invalid.
\<close>

fun digits_val :: "string \<Rightarrow> nat option" where
  "digits_val [] = Some 0"
| "digits_val cs =
     (let c = last cs; n = (of_char c :: nat)
      in if 48 \<le> n \<and> n \<le> 57
         then (case digits_val (butlast cs) of
                 Some v \<Rightarrow> Some (10 * v + (n - 48))
               | None \<Rightarrow> None)
         else None)"

definition is_leap :: "nat \<Rightarrow> bool" where
  "is_leap y = (y mod 4 = 0 \<and> (y mod 100 \<noteq> 0 \<or> y mod 400 = 0))"

definition days_in_month :: "nat \<Rightarrow> nat \<Rightarrow> nat" where
  "days_in_month y m =
     (if m = 2 then (if is_leap y then 29 else 28)
      else if m = 4 \<or> m = 6 \<or> m = 9 \<or> m = 11 then 30 else 31)"

text \<open>The number of the day \<open>y-m-d\<close>, counted from 1970-01-01.\<close>

definition days_from_civil :: "nat \<Rightarrow> nat \<Rightarrow> nat \<Rightarrow> int" where
  "days_from_civil y m d =
     (let y' = (if m \<le> 2 then int y - 1 else int y);
          era = y' div 400;
          yoe = y' - era * 400;
          mp = (if m > 2 then int m - 3 else int m + 9);
          doy = (153 * mp + 2) div 5 + int d - 1;
          doe = yoe * 365 + yoe div 4 - yoe div 100 + doy
      in era * 146097 + doe - 719468)"

definition parse_ymd :: "string \<Rightarrow> int option" where
  "parse_ymd s =
     (if length s = 10 \<and> s ! 4 = CHR ''-'' \<and> s ! 7 = CHR ''-''
      then (case (digits_val (take 4 s), digits_val (take 2 (drop 5 s)),
                  digits_val (take 2 (drop 8 s))) of
              (Some y, Some m, Some d) \<Rightarrow>
                if 1 \<le> m \<and> m \<le> 12 \<and> 1 \<le> d \<and> d \<le> days_in_month y m
                then Some (days_from_civil y m d * ms_per_day)
                else None
            | _ \<Rightarrow> None)
      else None)"

definition parse_hms :: "string \<Rightarrow> int option" where
  "parse_hms s =
     (if length s = 14 \<and> s ! 0 = CHR ''T'' \<and> s ! 3 = CHR '':'' \<and> s ! 6 = CHR '':''
         \<and> s ! 9 = CHR ''.'' \<and> s ! 13 = CHR ''Z''
      then (case (digits_val (take 2 (drop 1 s)), digits_val (take 2 (drop 4 s)),
                  digits_val (take 2 (drop 7 s)), digits_val (take 3 (drop 10 s))) of
              (Some h, Some mi, Some sec, Some ms) \<Rightarrow>
                if h \<le> 23 \<and> mi \<le> 59 \<and> sec \<le> 59
                then Some (int h * 3600000 + int mi * 60000 + int sec * 1000 + int ms)
                else None
            | _ \<Rightarrow> None)
      else None)"

definition parse_iso :: "string \<Rightarrow> int option" where
  "parse_iso s =
     (if length s = 10 then parse_ymd s
      else if length s = 24
      then (case (parse_ymd (take 10 s), parse_hms (drop 10 s)) of
              (Some d, Some t) \<Rightarrow> Some (d + t)
            | _ \<Rightarrow> None)
      else None)"

text \<open>A browser with that engine in a zone that is five hours behind UTC all year
  (Bogota, Lima), and one in a zone that is two hours ahead.\<close>

definition behind_utc :: platform where
  "behind_utc = \<lparr>Date_parse = parse_iso, LocalTZA = (\<lambda>t isUTC. - 18000000)\<rparr>"

definition ahead_of_utc :: platform where
  "ahead_of_utc = \<lparr>Date_parse = parse_iso, LocalTZA = (\<lambda>t isUTC. 7200000)\<rparr>"

text \<open>Vault items mastered at noon UTC of 14 and of 15 January 2024.\<close>

definition item_jan14 :: VaultItem where
  "item_jan14 =
     \<lparr>item_hash = ''h14'', item_domain = ''Storage'', item_foundationalRule = ''Rule 14'',
      item_masteredAt = ''2024-01-14T12:00:00.000Z''\<rparr>"

definition item_jan15 :: VaultItem where
  "item_jan15 =
     \<lparr>item_hash = ''h15'', item_domain = ''Storage'', item_foundationalRule = ''Rule 15'',
      item_masteredAt = ''2024-01-15T12:00:00.000Z''\<rparr>"

text \<open>A lookup request to the store.\<close>

definition is_StoreGet :: "event \<Rightarrow> bool" where
  "is_StoreGet ev = (case ev of StoreGet h \<Rightarrow> True | _ \<Rightarrow> False)"

text \<open>A world with a working store where the question \<open>Question: a\<close> is in the vault,
  and the pending batch of a scan of that question there.\<close>

definition w_dup :: world where
  "w_dup = ex_world [(hash_a, ex_item hash_a)] healthy"

definition pending_a :: PendingBatch where
  "pending_a = \<lparr>questions = [''Question: a''], hashes = [hash_a], duplicateIndices = [0]\<rparr>"






section \<open>Properties\<close>

subsection \<open>The existence check and the scan\<close>

lemma checkDuplicate_eq:
  "checkDuplicate h w = (Inr (lookup_finds w h), checked [h] w)"
  by (simp add: checkDuplicate_def catch_io_def bind_io_def getDb_def getDoc_def return_io_def
      lookup_finds_def checked_def emit_def split: option.splits)

lemma checked_fields [simp]:
  "docs (checked hs w) = docs w" "configured (checked hs w) = configured w"
  "store_fault (checked hs w) = store_fault w" "clock (checked hs w) = clock w"
  "localKey (checked hs w) = localKey w" "envKey (checked hs w) = envKey w"
  "ai (checked hs w) = ai w" "parse_result (checked hs w) = parse_result w"
  by (simp_all add: checked_def)

lemma lookup_finds_checked [simp]: "lookup_finds (checked hs w) h = lookup_finds w h"
  by (simp add: lookup_finds_def)

lemma checked_append: "checked ys (checked xs w) = checked (xs @ ys) w"
  by (simp add: checked_def)

lemma mapM_checkDuplicate:
  "mapM_io checkDuplicate hs w = (Inr (map (lookup_finds w) hs), checked hs w)"
proof (induction hs arbitrary: w)
  case Nil
  show ?case by (simp add: return_io_def checked_def)
next
  case (Cons h hs)
  have "mapM_io checkDuplicate (h # hs) w =
          (case checkDuplicate h w of
             (Inl e, w') \<Rightarrow> (Inl e, w')
           | (Inr y, w') \<Rightarrow>
               (case mapM_io checkDuplicate hs w' of
                  (Inl e, w'') \<Rightarrow> (Inl e, w'')
                | (Inr ys, w'') \<Rightarrow> (Inr (y # ys), w'')))"
    by (simp add: bind_io_def return_io_def split: prod.splits sum.splits)
  also have "\<dots> = (Inr (lookup_finds w h # map (lookup_finds w) hs), checked hs (checked [h] w))"
    unfolding checkDuplicate_eq [of h w] Cons.IH by simp
  finally show ?case by (simp add: checked_append)
qed

lemma executeProcessing_returns:
  "\<exists>a' w'. executeProcessing batch hs a w = (Inr a', w')"
  by (auto simp: executeProcessing_def catch_io_def bind_io_def return_io_def console_warn_def
      Let_def split: prod.splits sum.splits)

lemma indices_of_duplicates_Nil: "(indices_of_duplicates ds = []) = (True \<notin> set ds)"
  by (auto simp: indices_of_duplicates_def filter_empty_conv in_set_conv_nth)

lemma handleInitialScan_eq:
  "handleInitialScan a w =
     (if trim (inputText a) = [] then (Inr a, w)
      else if rawQuestions (inputText a) = []
      then (Inr (a\<lparr>status := ERROR, error := Some (message no_valid_questions)\<rparr>), w)
      else if list_ex (lookup_finds w) (map getQuestionHash (rawQuestions (inputText a)))
      then (Inr (a\<lparr>status := IDLE, error := None,
                    pendingBatch :=
                      Some \<lparr>questions = rawQuestions (inputText a),
                            hashes = map getQuestionHash (rawQuestions (inputText a)),
                            duplicateIndices =
                              indices_of_duplicates
                                (map (lookup_finds w)
                                   (map getQuestionHash (rawQuestions (inputText a))))\<rparr>\<rparr>),
            checked (map getQuestionHash (rawQuestions (inputText a))) w)
      else executeProcessing (rawQuestions (inputText a))
             (map getQuestionHash (rawQuestions (inputText a)))
             (a\<lparr>status := LOADING, error := None\<rparr>)
             (checked (map getQuestionHash (rawQuestions (inputText a))) w))"
proof -
  let ?rqs = "rawQuestions (inputText a)"
  let ?hs = "map getQuestionHash ?rqs"
  let ?a1 = "a\<lparr>status := LOADING, error := None\<rparr>"
  show ?thesis
  proof (cases "trim (inputText a) = []")
    case True
    then show ?thesis by (simp add: handleInitialScan_def return_io_def)
  next
    case ne: False
    show ?thesis
    proof (cases "?rqs = []")
      case True
      with ne show ?thesis
        by (simp add: handleInitialScan_def Let_def catch_io_def bind_io_def throw_io_def
            return_io_def)
    next
      case rq: False
      show ?thesis
      proof (cases "list_ex (lookup_finds w) ?hs")
        case True
        then have "indices_of_duplicates (map (lookup_finds w) ?hs) \<noteq> []"
          by (auto simp: indices_of_duplicates_Nil list_ex_iff)
        with ne rq True show ?thesis
          by (simp add: handleInitialScan_def Let_def catch_io_def bind_io_def throw_io_def
            return_io_def mapM_checkDuplicate)
      next
        case False
        then have nil: "indices_of_duplicates (map (lookup_finds w) ?hs) = []"
          by (auto simp: indices_of_duplicates_Nil list_ex_iff)
        obtain a' w' where ex: "executeProcessing ?rqs ?hs ?a1 (checked ?hs w) = (Inr a', w')"
          using executeProcessing_returns by blast
        have "handleInitialScan a w =
                (case executeProcessing ?rqs ?hs ?a1 (checked ?hs w) of
                   (Inl e, w') \<Rightarrow> (Inr (?a1\<lparr>error := Some (message e), status := ERROR\<rparr>), w')
                 | (Inr x, w') \<Rightarrow> (Inr x, w'))"
          using ne rq nil
          by (simp add: handleInitialScan_def Let_def catch_io_def bind_io_def throw_io_def
            return_io_def mapM_checkDuplicate)
        also have "\<dots> = executeProcessing ?rqs ?hs ?a1 (checked ?hs w)"
          by (simp add: ex)
        finally show ?thesis using ne rq False by simp
      qed
    qed
  qed
qed

lemmas eval_text =
  rawQuestions_def trim_def isWhiteSpace_def match_blank_def

text \<open>
  C9. The duplicate check is best-effort. For every hash, \<open>checkDuplicate\<close> returns true
  exactly when the store is configured, the lookup succeeds and the document keyed by the
  hash exists; on every failure (store not configured, lookup failing) it returns false
  and throws nothing. Hence, when the check fails for the questions of a scan, the scan
  goes on to process them without holding a pending batch for the duplicate prompt,
  whatever the vault contains.
\<close>

theorem checkDuplicate_best_effort:
  "fst (checkDuplicate h w)
     = Inr (configured w \<and> store_fault w (GetDoc h) = None \<and> map_of (docs w) h \<noteq> None)
   \<and> ((\<not> configured w \<or> store_fault w (GetDoc h) \<noteq> None)
        \<longrightarrow> checkDuplicate h w = (Inr False, checked [h] w))
   \<and> (trim (inputText a) \<noteq> [] \<and> rawQuestions (inputText a) \<noteq> []
        \<and> (\<forall>q \<in> set (rawQuestions (inputText a)).
              \<not> configured w \<or> store_fault w (GetDoc (getQuestionHash q)) \<noteq> None)
        \<longrightarrow> handleInitialScan a w =
              executeProcessing (rawQuestions (inputText a))
                (map getQuestionHash (rawQuestions (inputText a)))
                (a\<lparr>status := LOADING, error := None\<rparr>)
                (checked (map getQuestionHash (rawQuestions (inputText a))) w))"
proof -
  have 1: "fst (checkDuplicate h w)
     = Inr (configured w \<and> store_fault w (GetDoc h) = None \<and> map_of (docs w) h \<noteq> None)"
    by (simp add: checkDuplicate_eq lookup_finds_def)
  have 2: "(\<not> configured w \<or> store_fault w (GetDoc h) \<noteq> None)
        \<longrightarrow> checkDuplicate h w = (Inr False, checked [h] w)"
    by (auto simp: checkDuplicate_eq lookup_finds_def)
  have 3: "handleInitialScan a w =
              executeProcessing (rawQuestions (inputText a))
                (map getQuestionHash (rawQuestions (inputText a)))
                (a\<lparr>status := LOADING, error := None\<rparr>)
                (checked (map getQuestionHash (rawQuestions (inputText a))) w)"
    if "trim (inputText a) \<noteq> []" "rawQuestions (inputText a) \<noteq> []"
       "\<forall>q \<in> set (rawQuestions (inputText a)).
              \<not> configured w \<or> store_fault w (GetDoc (getQuestionHash q)) \<noteq> None"
  proof -
    from that(3) have "\<not> list_ex (lookup_finds w) (map getQuestionHash (rawQuestions (inputText a)))"
      by (auto simp: list_ex_iff lookup_finds_def)
    with that(1,2) show ?thesis by (simp add: handleInitialScan_eq)
  qed
  from 1 2 3 show ?thesis by blast
qed

text \<open>The question of the scan is in the vault, every lookup fails, and the scan
  processes it.\<close>

theorem checkDuplicate_best_effort_witness:
  "map_of (docs w9) (getQuestionHash ''Question: a'') \<noteq> None
   \<and> checkDuplicate (getQuestionHash ''Question: a'') w9
       = (Inr False, checked [getQuestionHash ''Question: a''] w9)
   \<and> handleInitialScan (ex_app ''Question: a'') w9 =
       executeProcessing [''Question: a''] [getQuestionHash ''Question: a'']
         ((ex_app ''Question: a'')\<lparr>status := LOADING, error := None\<rparr>)
         (checked [getQuestionHash ''Question: a''] w9)"
  using checkDuplicate_best_effort [of "getQuestionHash ''Question: a''" w9 "ex_app ''Question: a''"]
  by (simp add: w9_def ex_world_def ex_app_def unavailable_def eval_text)

subsection \<open>Counting matches, trimming, small letters\<close>

lemma match_count_skip:
  "p \<noteq> [] \<Longrightarrow> hd p \<notin> set a \<Longrightarrow> match_count p (a @ b) = match_count p b"
proof (induction a)
  case Nil
  then show ?case by simp
next
  case (Cons c a)
  then have "\<not> prefix p (c # a @ b)"
    by (cases p) auto
  with Cons show ?case by simp
qed

lemma prefix_append_cut:
  assumes "prefix p (xs @ b)" and "b = [] \<or> hd b \<notin> set p"
  shows "prefix p xs"
proof (rule ccontr)
  assume n: "\<not> prefix p xs"
  with assms(1) obtain us where us: "p = xs @ us" "prefix us b"
    by (auto simp: prefix_append)
  with n have ne: "us \<noteq> []" by auto
  with us(2) have "b \<noteq> []" by auto
  moreover from us(2) ne have "hd us = hd b" by (cases us; cases b) auto
  moreover from us(1) ne have "hd us \<in> set p" by (cases us) auto
  ultimately show False using assms(2) by auto
qed

lemma match_count_append:
  "b = [] \<or> hd b \<notin> set p \<Longrightarrow> match_count p (a @ b) = match_count p a + match_count p b"
proof (induction p a rule: match_count.induct)
  case (1 p)
  then show ?case by simp
next
  case (2 p c cs)
  show ?case
  proof (cases "prefix p (c # cs)")
    case True
    then have len: "length p - 1 \<le> length cs"
      by (auto dest: prefix_length_le)
    from True have "prefix p ((c # cs) @ b)"
      by (metis prefix_prefix)
    with True 2 len show ?thesis by simp
  next
    case False
    then have "\<not> prefix p ((c # cs) @ b)"
      using prefix_append_cut [OF _ "2.prems"] by blast
    with False 2 show ?thesis by simp
  qed
qed

lemma match_count_zero:
  "p \<noteq> [] \<Longrightarrow> (match_count p s = 0) = (\<not> includes_str s p)"
  by (induction p s rule: match_count.induct) auto

lemma char_eq_code: "(c = d) = ((of_char c :: nat) = of_char d)"
  by simp

lemma isWhiteSpace_code:
  "isWhiteSpace c = ((of_char c :: nat) \<in> {9, 10, 11, 12, 13, 32, 160})"
  unfolding isWhiteSpace_def
  by (simp add: char_eq_code [of c])

lemma isWhiteSpace_lower [simp]: "isWhiteSpace (toLowerCase_char c) = isWhiteSpace c"
proof (cases "isUpper c")
  case False
  then show ?thesis by (simp add: toLowerCase_char_def)
next
  case True
  then have "\<not> isWhiteSpace c"
    by (auto simp: isUpper_def isWhiteSpace_code Let_def)
  moreover from True have "(of_char c :: nat) + 32 < 256"
    by (auto simp: isUpper_def Let_def)
  then have "(of_char (char_of ((of_char c :: nat) + 32)) :: nat) = of_char c + 32"
    by simp
  with True have "\<not> isWhiteSpace (toLowerCase_char c)"
    by (auto simp: isUpper_def isWhiteSpace_code Let_def toLowerCase_char_def)
  ultimately show ?thesis by simp
qed

lemma toLowerCase_append [simp]: "toLowerCase (a @ b) = toLowerCase a @ toLowerCase b"
  by (simp add: toLowerCase_def)

lemma toLowerCase_Cons: "toLowerCase (c # cs) = toLowerCase_char c # toLowerCase cs"
  by (simp add: toLowerCase_def)

lemma toLowerCase_Nil [simp]: "toLowerCase [] = []"
  by (simp add: toLowerCase_def)

lemma dropWhile_ws_lower:
  "dropWhile isWhiteSpace (toLowerCase s) = toLowerCase (dropWhile isWhiteSpace s)"
  by (induction s) (simp_all add: toLowerCase_def)

lemma toLowerCase_rev: "toLowerCase (rev s) = rev (toLowerCase s)"
  by (simp add: toLowerCase_def rev_map)

lemma toLowerCase_trim: "toLowerCase (trim s) = trim (toLowerCase s)"
  by (simp add: trim_def dropWhile_ws_lower toLowerCase_rev [symmetric])

lemma trim_decomp:
  "\<exists>a b. s = a @ trim s @ b \<and> list_all isWhiteSpace a \<and> list_all isWhiteSpace b"
proof -
  let ?t = "dropWhile isWhiteSpace s"
  let ?a = "takeWhile isWhiteSpace s"
  let ?b = "rev (takeWhile isWhiteSpace (rev ?t))"
  have "rev ?t = takeWhile isWhiteSpace (rev ?t) @ dropWhile isWhiteSpace (rev ?t)"
    by simp
  then have "?t = rev (dropWhile isWhiteSpace (rev ?t)) @ ?b"
    by (metis rev_append rev_rev_ident)
  then have "s = ?a @ trim s @ ?b"
    by (metis takeWhile_dropWhile_id trim_def)
  moreover have "list_all isWhiteSpace ?a"
    by (simp add: list_all_iff) (meson set_takeWhileD)
  moreover have "list_all isWhiteSpace ?b"
    by (simp add: list_all_iff) (meson set_takeWhileD)
  ultimately show ?thesis by blast
qed

lemma dropWhile_ws_append:
  "list_all isWhiteSpace a \<Longrightarrow> dropWhile isWhiteSpace (a @ s) = dropWhile isWhiteSpace s"
  by (induction a) simp_all

lemma trim_ws_append:
  assumes "list_all isWhiteSpace a" "list_all isWhiteSpace b"
  shows "trim (a @ s @ b) = trim s"
proof -
  have 1: "dropWhile isWhiteSpace (a @ s @ b) = dropWhile isWhiteSpace (s @ b)"
    using assms(1) by (rule dropWhile_ws_append)
  show ?thesis
  proof (cases "list_all isWhiteSpace s")
    case True
    with assms have "list_all isWhiteSpace (a @ s @ b)" by simp
    then have A: "dropWhile isWhiteSpace (a @ s @ b) = []"
      unfolding dropWhile_eq_Nil_conv list_all_iff .
    from True have B: "dropWhile isWhiteSpace s = []"
      unfolding dropWhile_eq_Nil_conv list_all_iff .
    show ?thesis by (simp only: trim_def A B)
  next
    case False
    then have "dropWhile isWhiteSpace (s @ b) = dropWhile isWhiteSpace s @ b"
      by (auto simp: list_all_iff dropWhile_append)
    moreover have "list_all isWhiteSpace (rev b)" using assms(2) by simp
    ultimately show ?thesis
      using 1 by (simp add: trim_def dropWhile_ws_append)
  qed
qed

lemma match_count_field:
  assumes "p \<noteq> []" "NL \<notin> set p" "hd p \<notin> set lbl"
  shows "match_count p (x @ [NL] @ lbl @ rest) = match_count p x + match_count p rest"
proof -
  have "match_count p (x @ [NL] @ lbl @ rest) = match_count p x + match_count p ([NL] @ lbl @ rest)"
    using assms(2) by (intro match_count_append) simp
  moreover have "hd p \<noteq> NL" using assms(1,2) by (cases p) auto
  then have "match_count p (([NL] @ lbl) @ rest) = match_count p rest"
    using assms(1,3) by (intro match_count_skip) auto
  ultimately show ?thesis by simp
qed

lemma match_count_self:
  "p \<noteq> [] \<Longrightarrow> match_count p (p @ rest) = Suc (match_count p rest)"
  by (cases p) simp_all

lemma match_count_trim:
  assumes "p \<noteq> []" "\<not> list_ex isWhiteSpace p"
  shows "match_count p (trim s) = match_count p s"
proof -
  obtain a b where s: "s = a @ trim s @ b" and a: "list_all isWhiteSpace a"
    and b: "list_all isWhiteSpace b"
    using trim_decomp by blast
  from assms have hd: "\<not> isWhiteSpace (hd p)" by (cases p) (auto simp: list_ex_iff)
  with a have 1: "hd p \<notin> set a" by (auto simp: list_all_iff)
  from hd b have 2: "hd p \<notin> set b" by (auto simp: list_all_iff)
  from b assms(2) have 3: "b = [] \<or> hd b \<notin> set p"
    by (cases b) (auto simp: list_all_iff list_ex_iff)
  have "match_count p s = match_count p (a @ trim s @ b)" using s by simp
  also have "\<dots> = match_count p (trim s @ b)"
    using assms(1) 1 by (rule match_count_skip)
  also have "\<dots> = match_count p (trim s) + match_count p b"
    using 3 by (rule match_count_append)
  also have "match_count p b = 0"
    using match_count_skip [OF assms(1) 2, of "[]"] by simp
  finally show ?thesis by simp
qed

lemma count_formatted:
  "match_count ''Question: '' (formatted q) =
     1 + match_count ''Question: '' (e_text q) + match_count ''Question: '' (e_correctAnswer q)
       + match_count ''Question: '' (e_explanation q)"
proof -
  let ?p = "''Question: ''"
  have a: "match_count ?p (x @ [NL] @ ''Correct Answer: '' @ rest)
             = match_count ?p x + match_count ?p rest" for x rest
    by (rule match_count_field) simp_all
  have b: "match_count ?p (x @ [NL] @ ''Explanation: '' @ rest)
             = match_count ?p x + match_count ?p rest" for x rest
    by (rule match_count_field) simp_all
  have c: "match_count ?p (?p @ rest) = Suc (match_count ?p rest)" for rest
    by (rule match_count_self) simp
  have "match_count ?p (formatted q) =
          Suc (match_count ?p (e_text q) + (match_count ?p (e_correctAnswer q)
                 + match_count ?p (e_explanation q)))"
    by (simp only: formatted_def a b c)
  then show ?thesis by simp
qed

lemma count_pushed:
  "match_count ''Question: '' (t @ NL # NL # formatted q) =
     match_count ''Question: '' t + match_count ''Question: '' (formatted q)"
proof -
  have "match_count ''Question: '' (t @ [NL] @ [NL] @ formatted q) =
     match_count ''Question: '' t + match_count ''Question: '' (formatted q)"
    by (rule match_count_field) simp_all
  then show ?thesis by simp
qed

lemma char_of_eq_code: "n < 256 \<Longrightarrow> (char_of (n::nat) = c) = (n = of_char c)"
  by (metis char_of_char mod_less of_char_of)

lemma lower_label:
  "toLowerCase ''Question: '' = ''question:'' @ '' ''"
  "toLowerCase ''Question:'' = ''question:''"
  "toLowerCase ''Correct Answer: '' = ''correct answer: ''"
  "toLowerCase ''Explanation: '' = ''explanation: ''"
  "toLowerCase [NL] = [NL]"
  "toLowerCase [NL, NL] = [NL] @ [NL]"
  by (simp_all add: toLowerCase_def toLowerCase_char_def isUpper_def char_of_eq_code)

lemma count_formatted_index:
  "currentStagedCount (formatted q) =
     1 + currentStagedCount (e_text q) + currentStagedCount (e_correctAnswer q)
       + currentStagedCount (e_explanation q)"
proof -
  let ?p = "''question:''"
  have a: "match_count ?p (x @ [NL] @ ''correct answer: '' @ rest)
             = match_count ?p x + match_count ?p rest" for x rest
    by (rule match_count_field) simp_all
  have b: "match_count ?p (x @ [NL] @ ''explanation: '' @ rest)
             = match_count ?p x + match_count ?p rest" for x rest
    by (rule match_count_field) simp_all
  have c: "match_count ?p (?p @ rest) = Suc (match_count ?p rest)" for rest
    by (rule match_count_self) simp
  have d: "match_count ?p ('' '' @ rest) = match_count ?p rest" for rest
    by (rule match_count_skip) simp_all
  have "currentStagedCount (formatted q) =
          Suc (match_count ?p (toLowerCase (e_text q))
               + (match_count ?p (toLowerCase (e_correctAnswer q))
                  + match_count ?p (toLowerCase (e_explanation q))))"
    by (simp only: currentStagedCount_def formatted_def toLowerCase_append lower_label
        append_assoc a b c d)
  then show ?thesis by (simp add: currentStagedCount_def lower_label)
qed

lemma currentStagedCount_trim: "currentStagedCount (trim t) = currentStagedCount t"
  by (simp add: currentStagedCount_def toLowerCase_trim match_count_trim isWhiteSpace_def
      lower_label)

lemma count_pushed_index:
  "currentStagedCount (t @ NL # NL # formatted q) =
     currentStagedCount t + currentStagedCount (formatted q)"
proof -
  have "match_count ''question:'' (toLowerCase t @ [NL] @ [NL] @ toLowerCase (formatted q)) =
     match_count ''question:'' (toLowerCase t) + match_count ''question:'' (toLowerCase (formatted q))"
    by (rule match_count_field) simp_all
  then have "currentStagedCount (t @ [NL, NL] @ formatted q) =
     currentStagedCount t + currentStagedCount (formatted q)"
    by (simp only: currentStagedCount_def toLowerCase_append lower_label append_assoc)
  then show ?thesis by simp
qed


subsection \<open>Pushing a question to the staging text\<close>

lemmas eval_lower = toLowerCase_def toLowerCase_char_def isUpper_def char_of_def bit_Suc_0_iff

text \<open>
  C1, as stated, fails on \<open>handlePushToEngine\<close> of index.tsx: below the limit the push
  does not leave the prior text as it is, it trims it first. Here the prior text \<open>x \<close>
  (with a space at its end) has no staged question, and the new text is not the prior
  text followed by a blank line and the question.
\<close>

theorem push_index_counterexample:
  "currentStagedCount ''x '' < 6
   \<and> handlePushToEngine_index ex_q ''x '' \<noteq> ''x '' @ [NL, NL] @ formatted ex_q"
  by (simp add: handlePushToEngine_index_def currentStagedCount_def eval_lower trim_def
      isWhiteSpace_def)

text \<open>
  C1 (amended). Staged questions are capped at 6. In App.tsx, for every question \<open>q\<close> and
  every state whose staged count (occurrences of \<open>Question: \<close>) is at least 6,
  \<open>handlePushToEngine\<close> leaves the state unchanged and only shows the alert; below 6 it
  sets the staging text to \<open>q\<close> formatted when the text was empty, and to the prior text,
  a blank line and \<open>q\<close> formatted otherwise, and changes nothing else. In index.tsx,
  for a count (occurrences of \<open>Question:\<close> in any letter case) of at least 6 the text is
  returned unchanged; below 6 the prior text is trimmed of surrounding white space
  before the blank line and the formatted question are appended. The question is
  formatted as \<open>Question: <text>\nCorrect Answer: <answer>\nExplanation: <explanation>\<close>.
\<close>

theorem staged_questions_capped:
  "(stagedCount a \<ge> 6 \<longrightarrow>
      handlePushToEngine q a w = (Inr a, emit (Alert limit_reached) w))
   \<and> (stagedCount a < 6 \<longrightarrow>
      handlePushToEngine q a w =
        (Inr (a\<lparr>inputText := (if inputText a = [] then formatted q
                                else inputText a @ [NL, NL] @ formatted q)\<rparr>), w))
   \<and> (currentStagedCount prev \<ge> 6 \<longrightarrow> handlePushToEngine_index q prev = prev)
   \<and> (currentStagedCount prev < 6 \<longrightarrow>
      handlePushToEngine_index q prev =
        (if trim prev = [] then formatted q else trim prev @ [NL, NL] @ formatted q))
   \<and> formatted q =
       ''Question: '' @ e_text q @ [NL] @ ''Correct Answer: '' @ e_correctAnswer q
         @ [NL] @ ''Explanation: '' @ e_explanation q"
  by (simp add: handlePushToEngine_def handlePushToEngine_index_def stagedCount_def
      bind_io_def alert_def return_io_def Let_def formatted_def)

text \<open>At six staged questions the push is refused, at one it appends, in both files.\<close>

theorem staged_questions_capped_witness:
  "handlePushToEngine ex_q (ex_app six_staged) (ex_world [] healthy)
     = (Inr (ex_app six_staged), emit (Alert limit_reached) (ex_world [] healthy))
   \<and> handlePushToEngine ex_q (ex_app ''Question: 1'') (ex_world [] healthy)
     = (Inr (ex_app (''Question: 1'' @ [NL, NL] @ formatted ex_q)), ex_world [] healthy)
   \<and> handlePushToEngine_index ex_q six_marks = six_marks
   \<and> handlePushToEngine_index ex_q '' Question: 1 '' = ''Question: 1'' @ [NL, NL] @ formatted ex_q"
proof -
  have 1: "stagedCount (ex_app six_staged) = 6" by code_simp
  have 2: "stagedCount (ex_app ''Question: 1'') = 1" by code_simp
  have 3: "currentStagedCount six_marks = 6" by code_simp
  have 4: "currentStagedCount '' Question: 1 '' = 1" by code_simp
  have 5: "trim '' Question: 1 '' = ''Question: 1''" by code_simp
  show ?thesis
    using staged_questions_capped [of "ex_app six_staged" ex_q "ex_world [] healthy" six_marks]
      staged_questions_capped [of "ex_app ''Question: 1''" ex_q "ex_world [] healthy"
        "'' Question: 1 ''"]
    by (simp add: 1 2 3 4 5) (simp add: ex_app_def)
qed


subsection \<open>The staged count\<close>

text \<open>
  C10, as stated, fails on \<open>currentStagedCount\<close> of index.tsx: it does not count the
  occurrences of \<open>Question: \<close>. The text \<open>question:\<close> has none and counts 1; and a
  question whose text, answer and explanation do not contain \<open>Question: \<close> raises the
  count by 2 when its text is \<open>QUESTION:x\<close>.
\<close>

theorem staged_count_index_counterexample:
  "currentStagedCount ''question:'' = 1
   \<and> match_count ''Question: '' ''question:'' = 0
   \<and> \<not> includes_str (e_text ex_q_marked) ''Question: ''
   \<and> \<not> includes_str (e_correctAnswer ex_q_marked) ''Question: ''
   \<and> \<not> includes_str (e_explanation ex_q_marked) ''Question: ''
   \<and> currentStagedCount [] < 6
   \<and> currentStagedCount (handlePushToEngine_index ex_q_marked []) = currentStagedCount [] + 2"
  by code_simp

lemma push_count:
  assumes "stagedCount a < 6" "handlePushToEngine q a w = (Inr a', w')"
  shows "stagedCount a' =
           stagedCount a + 1 + match_count ''Question: '' (e_text q)
             + match_count ''Question: '' (e_correctAnswer q)
             + match_count ''Question: '' (e_explanation q)"
proof -
  from assms have a': "a' = a\<lparr>inputText := (if inputText a = [] then formatted q
                                else inputText a @ [NL, NL] @ formatted q)\<rparr>"
    by (auto simp: handlePushToEngine_def stagedCount_def return_io_def Let_def)
  show ?thesis
  proof (cases "inputText a = []")
    case True
    with a' show ?thesis by (simp add: stagedCount_def count_formatted)
  next
    case False
    with a' show ?thesis by (simp add: stagedCount_def count_pushed count_formatted)
  qed
qed

lemma push_count_index:
  assumes "currentStagedCount prev < 6"
  shows "currentStagedCount (handlePushToEngine_index q prev) =
           currentStagedCount prev + 1 + currentStagedCount (e_text q)
             + currentStagedCount (e_correctAnswer q) + currentStagedCount (e_explanation q)"
proof (cases "trim prev = []")
  case True
  then have "currentStagedCount prev = 0"
    using currentStagedCount_trim [of prev] by (simp add: currentStagedCount_def)
  with assms True show ?thesis
    by (simp add: handlePushToEngine_index_def count_formatted_index)
next
  case False
  with assms show ?thesis
    by (simp add: handlePushToEngine_index_def count_pushed_index count_formatted_index
        currentStagedCount_trim)
qed

lemma includes_count: "includes_str s ''Question: '' = (match_count ''Question: '' s > 0)"
  using match_count_zero [of "''Question: ''" s] by auto

lemma includes_count_index:
  "includes_str (toLowerCase s) ''question:'' = (currentStagedCount s > 0)"
  using match_count_zero [of "''question:''" "toLowerCase s"]
  by (auto simp: currentStagedCount_def lower_label)

text \<open>
  C10 (amended). The staged count is computed from the staging text, not from the pushes.
  In App.tsx it is the number of matches of \<open>Question: \<close> in the text; in index.tsx it is
  the number of matches of \<open>Question:\<close> in any letter case, with no space required. For
  each file and its own pattern: a successful push of a question whose text, answer and
  explanation do not contain the pattern raises the count by exactly 1, and a successful
  push of a question that contains it raises the count by more than 1. Text typed into
  the textarea is counted in the same way, so that typed text with six matches makes the
  push refuse although nothing was pushed.
\<close>

theorem staged_count_is_pattern_count:
  "stagedCount (setInputText t a) = match_count ''Question: '' t
   \<and> currentStagedCount t = match_count ''question:'' (toLowerCase t)
   \<and> (stagedCount a < 6 \<and> handlePushToEngine q a w = (Inr a', w')
        \<and> \<not> includes_str (e_text q) ''Question: ''
        \<and> \<not> includes_str (e_correctAnswer q) ''Question: ''
        \<and> \<not> includes_str (e_explanation q) ''Question: ''
        \<longrightarrow> stagedCount a' = stagedCount a + 1)
   \<and> (stagedCount a < 6 \<and> handlePushToEngine q a w = (Inr a', w')
        \<and> (includes_str (e_text q) ''Question: ''
             \<or> includes_str (e_correctAnswer q) ''Question: ''
             \<or> includes_str (e_explanation q) ''Question: '')
        \<longrightarrow> stagedCount a' > stagedCount a + 1)
   \<and> (currentStagedCount prev < 6
        \<and> \<not> includes_str (toLowerCase (e_text q)) ''question:''
        \<and> \<not> includes_str (toLowerCase (e_correctAnswer q)) ''question:''
        \<and> \<not> includes_str (toLowerCase (e_explanation q)) ''question:''
        \<longrightarrow> currentStagedCount (handlePushToEngine_index q prev) = currentStagedCount prev + 1)
   \<and> (currentStagedCount prev < 6
        \<and> (includes_str (toLowerCase (e_text q)) ''question:''
             \<or> includes_str (toLowerCase (e_correctAnswer q)) ''question:''
             \<or> includes_str (toLowerCase (e_explanation q)) ''question:'')
        \<longrightarrow> currentStagedCount (handlePushToEngine_index q prev) > currentStagedCount prev + 1)
   \<and> (stagedCount (setInputText t a) \<ge> 6
        \<longrightarrow> fst (handlePushToEngine q (setInputText t a) w) = Inr (setInputText t a))
   \<and> (currentStagedCount t \<ge> 6 \<longrightarrow> handlePushToEngine_index q t = t)"
proof -
  have 1: "stagedCount (setInputText t a) = match_count ''Question: '' t"
    by (simp add: stagedCount_def setInputText_def)
  have 2: "currentStagedCount t = match_count ''question:'' (toLowerCase t)"
    by (simp add: currentStagedCount_def lower_label)
  have 3: "stagedCount a' =
           stagedCount a + 1 + match_count ''Question: '' (e_text q)
             + match_count ''Question: '' (e_correctAnswer q)
             + match_count ''Question: '' (e_explanation q)"
    if "stagedCount a < 6" "handlePushToEngine q a w = (Inr a', w')"
    using that by (rule push_count)
  have 4: "currentStagedCount (handlePushToEngine_index q prev) =
           currentStagedCount prev + 1 + currentStagedCount (e_text q)
             + currentStagedCount (e_correctAnswer q) + currentStagedCount (e_explanation q)"
    if "currentStagedCount prev < 6"
    using that by (rule push_count_index)
  have 5: "stagedCount (setInputText t a) \<ge> 6
        \<longrightarrow> fst (handlePushToEngine q (setInputText t a) w) = Inr (setInputText t a)"
    by (simp add: handlePushToEngine_def stagedCount_def bind_io_def alert_def return_io_def)
  have 6: "currentStagedCount t \<ge> 6 \<longrightarrow> handlePushToEngine_index q t = t"
    by (simp add: handlePushToEngine_index_def)
  show ?thesis
    using 1 2 3 4 5 6 by (simp add: includes_count includes_count_index)
qed

lemma push_to_example:
  "match_count ''Question: '' t < 6 \<Longrightarrow> t \<noteq> [] \<Longrightarrow>
   handlePushToEngine q (ex_app t) w = (Inr (ex_app (t @ [NL, NL] @ formatted q)), w)"
  by (simp add: handlePushToEngine_def ex_app_def return_io_def)

text \<open>Typed text alone counts 2; a plain question adds 1, a question with the marker in
  its text adds more; six matches refuse the push.\<close>

theorem staged_count_is_pattern_count_witness:
  "stagedCount (setInputText ''Question: Question: '' (ex_app [])) = 2
   \<and> stagedCount (ex_app (''Question: 1'' @ [NL, NL] @ formatted ex_q))
       = stagedCount (ex_app ''Question: 1'') + 1
   \<and> stagedCount (ex_app (''Question: 1'' @ [NL, NL] @ formatted ex_q_nested))
       > stagedCount (ex_app ''Question: 1'') + 1
   \<and> currentStagedCount (handlePushToEngine_index ex_q ''question: 1'')
       = currentStagedCount ''question: 1'' + 1
   \<and> currentStagedCount (handlePushToEngine_index ex_q_nested ''question: 1'')
       > currentStagedCount ''question: 1'' + 1
   \<and> fst (handlePushToEngine ex_q (setInputText six_staged (ex_app [])) (ex_world [] healthy))
       = Inr (setInputText six_staged (ex_app []))
   \<and> handlePushToEngine_index ex_q six_marks = six_marks"
proof -
  let ?w = "ex_world [] healthy"
  let ?a = "ex_app ''Question: 1''"
  have c: "match_count ''Question: '' ''Question: 1'' < 6" by code_simp
  have p1: "handlePushToEngine ex_q ?a ?w
              = (Inr (ex_app (''Question: 1'' @ [NL, NL] @ formatted ex_q)), ?w)"
    using c by (rule push_to_example) simp
  have p2: "handlePushToEngine ex_q_nested ?a ?w
              = (Inr (ex_app (''Question: 1'' @ [NL, NL] @ formatted ex_q_nested)), ?w)"
    using c by (rule push_to_example) simp
  have e1: "stagedCount ?a < 6" by code_simp
  have e2: "\<not> includes_str (e_text ex_q) ''Question: ''
            \<and> \<not> includes_str (e_correctAnswer ex_q) ''Question: ''
            \<and> \<not> includes_str (e_explanation ex_q) ''Question: ''" by code_simp
  have e3: "includes_str (e_text ex_q_nested) ''Question: ''" by code_simp
  have e4: "currentStagedCount ''question: 1'' < 6" by code_simp
  have e5: "\<not> includes_str (toLowerCase (e_text ex_q)) ''question:''
            \<and> \<not> includes_str (toLowerCase (e_correctAnswer ex_q)) ''question:''
            \<and> \<not> includes_str (toLowerCase (e_explanation ex_q)) ''question:''" by code_simp
  have e6: "includes_str (toLowerCase (e_text ex_q_nested)) ''question:''" by code_simp
  have e7: "match_count ''Question: '' ''Question: Question: '' = 2" by code_simp
  have e8: "6 \<le> stagedCount (setInputText six_staged (ex_app []))" by code_simp
  have e9: "6 \<le> currentStagedCount six_marks" by code_simp
  note T = staged_count_is_pattern_count
  note c2 = conjunct2
  have w1: "stagedCount (setInputText ''Question: Question: '' (ex_app [])) = 2"
    using T [where t = "''Question: Question: ''" and a = "ex_app []", THEN conjunct1] e7
    by simp
  have w2: "stagedCount (ex_app (''Question: 1'' @ [NL, NL] @ formatted ex_q))
       = stagedCount (ex_app ''Question: 1'') + 1"
    using T [where a = ?a and q = ex_q and w = ?w and w' = ?w
               and a' = "ex_app (''Question: 1'' @ [NL, NL] @ formatted ex_q)",
             THEN c2, THEN c2, THEN conjunct1] p1 e1 e2
    by simp
  have w3: "stagedCount (ex_app (''Question: 1'' @ [NL, NL] @ formatted ex_q_nested))
       > stagedCount (ex_app ''Question: 1'') + 1"
    using T [where a = ?a and q = ex_q_nested and w = ?w and w' = ?w
               and a' = "ex_app (''Question: 1'' @ [NL, NL] @ formatted ex_q_nested)",
             THEN c2, THEN c2, THEN c2, THEN conjunct1] p2 e1 e3
    by simp
  have w4: "currentStagedCount (handlePushToEngine_index ex_q ''question: 1'')
       = currentStagedCount ''question: 1'' + 1"
    using T [where q = ex_q and prev = "''question: 1''",
             THEN c2, THEN c2, THEN c2, THEN c2, THEN conjunct1] e4 e5
    by simp
  have w5: "currentStagedCount (handlePushToEngine_index ex_q_nested ''question: 1'')
       > currentStagedCount ''question: 1'' + 1"
    using T [where q = ex_q_nested and prev = "''question: 1''",
             THEN c2, THEN c2, THEN c2, THEN c2, THEN c2, THEN conjunct1] e4 e6
    by simp
  have w6: "fst (handlePushToEngine ex_q (setInputText six_staged (ex_app [])) ?w)
       = Inr (setInputText six_staged (ex_app []))"
    using T [where t = six_staged and a = "ex_app []" and q = ex_q and w = ?w,
             THEN c2, THEN c2, THEN c2, THEN c2, THEN c2, THEN c2, THEN conjunct1] e8
    by simp
  have w7: "handlePushToEngine_index ex_q six_marks = six_marks"
    using T [where t = six_marks and q = ex_q,
             THEN c2, THEN c2, THEN c2, THEN c2, THEN c2, THEN c2, THEN c2] e9
    by simp
  from w1 w2 w3 w4 w5 w6 w7 show ?thesis by blast
qed

subsection \<open>Saving and processing\<close>

lemma saveToVault_eq: "saveToVault h d r w = (Inr (), saved h d r w)"
  by (simp add: saveToVault_def catch_io_def bind_io_def getDb_def now_iso_def setDoc_def
      return_io_def saved_def vault_item_def emit_def split: option.splits)

lemma saveToVault_index_eq: "saveToVault_index h d r w = (Inr (), saved h d r w)"
  by (simp add: saveToVault_index_def catch_io_def bind_io_def now_iso_def setDoc_def
      return_io_def saved_def vault_item_def emit_def split: option.splits)

lemma saved_env [simp]:
  "configured (saved h d r w) = configured w" "store_fault (saved h d r w) = store_fault w"
  "clock (saved h d r w) = clock w" "localKey (saved h d r w) = localKey w"
  "envKey (saved h d r w) = envKey w" "ai (saved h d r w) = ai w"
  "parse_result (saved h d r w) = parse_result w"
  "parse_questions (saved h d r w) = parse_questions w"
  by (simp_all add: saved_def emit_def)

lemma saved_trace:
  "trace (saved h d r w) = trace w
   \<or> trace (saved h d r w) = trace w @ [StoreSet h (vault_item h d r w)]"
  by (simp add: saved_def emit_def)

text \<open>The world after the loop over the blocks.\<close>

lemma save_blocks_Cons:
  "save_blocks hs d (b # bs) i w =
     (if i < length hs \<and> hs ! i \<noteq> []
      then (case b of
              None \<Rightarrow> (Inl (engine_error w (NullRead ''foundationalRule'')), w)
            | Some blk \<Rightarrow> save_blocks hs d bs (Suc i) (saved (hs ! i) d (foundationalRule blk) w))
      else save_blocks hs d bs (Suc i) w)"
  by (simp add: bind_io_def return_io_def saveToVault_eq throw_fault_def throw_io_def
      split: option.splits)

lemma save_blocks_returns: "None \<notin> set bs \<Longrightarrow> fst (save_blocks hs d bs i w) = Inr ()"
proof (induction bs arbitrary: i w)
  case Nil
  show ?case by (simp add: return_io_def)
next
  case (Cons b bs)
  then show ?case
    unfolding save_blocks_Cons by (cases b) auto
qed

lemma save_blocks_throws: "fst (save_blocks hs d bs i w) = Inl e \<Longrightarrow> None \<in> set bs"
  using save_blocks_returns [of bs hs d i w] by auto

lemma save_blocks_trace:
  "\<exists>evs. trace (snd (save_blocks hs d bs i w)) = trace w @ evs \<and> list_all is_StoreSet evs"
proof (induction bs arbitrary: i w)
  case Nil
  show ?case by (simp add: return_io_def)
next
  case (Cons b bs)
  have stop: "\<exists>evs. trace w = trace w @ evs \<and> list_all is_StoreSet evs" by simp
  have step: "\<exists>evs. trace (snd (save_blocks hs d bs (Suc i) (saved h d r w))) = trace w @ evs
                      \<and> list_all is_StoreSet evs" for h r
  proof -
    obtain e1 where e1: "trace (saved h d r w) = trace w @ e1" "list_all is_StoreSet e1"
      using saved_trace [of h d r w] by (auto simp: is_StoreSet_def)
    from Cons.IH [of "Suc i" "saved h d r w"] obtain e2 where
      e2: "trace (snd (save_blocks hs d bs (Suc i) (saved h d r w))) = trace (saved h d r w) @ e2"
        "list_all is_StoreSet e2"
      by blast
    have "trace (snd (save_blocks hs d bs (Suc i) (saved h d r w))) = trace w @ (e1 @ e2)"
      using e1 e2 by simp
    moreover have "list_all is_StoreSet (e1 @ e2)" using e1 e2 by simp
    ultimately show ?thesis by blast
  qed
  show ?case
    unfolding save_blocks_Cons
    using stop step Cons.IH [of "Suc i" w] by (cases b) simp_all
qed

lemma catch_save_blocks:
  "catch_io (save_blocks hs d bs 0) (\<lambda>vaultErr. console_warn vault_sync_failed vaultErr) w
     = (Inr (), synced hs d bs w)"
  by (simp add: catch_io_def synced_def console_warn_def split: prod.splits sum.splits)

lemma synced_returns: "None \<notin> set bs \<Longrightarrow> synced hs d bs w = snd (save_blocks hs d bs 0 w)"
  using save_blocks_returns [of bs hs d 0 w]
  by (cases "save_blocks hs d bs 0 w") (simp add: synced_def)

lemma StoreSet_sync: "list_all is_StoreSet evs \<Longrightarrow> list_all is_sync evs"
  by (induction evs) (auto simp: is_StoreSet_def is_sync_def split: event.splits)

lemma synced_trace:
  "\<exists>evs. trace (synced hs d bs w) = trace w @ evs \<and> list_all is_sync evs"
proof -
  obtain evs where evs: "trace (snd (save_blocks hs d bs 0 w)) = trace w @ evs"
    "list_all is_StoreSet evs"
    using save_blocks_trace by blast
  show ?thesis
  proof (cases "save_blocks hs d bs 0 w")
    case (Pair r w')
    show ?thesis
    proof (cases r)
      case (Inl e)
      with Pair evs have "trace (synced hs d bs w) = trace w @ (evs @ [ConsoleWarn vault_sync_failed e])"
        by (simp add: synced_def emit_def)
      moreover have "list_all is_sync (evs @ [ConsoleWarn vault_sync_failed e])"
        using StoreSet_sync [OF evs(2)] by (simp add: is_sync_def)
      ultimately show ?thesis by blast
    next
      case (Inr u)
      with Pair evs have "trace (synced hs d bs w) = trace w @ evs" by (simp add: synced_def)
      then show ?thesis using StoreSet_sync [OF evs(2)] by blast
    qed
  qed
qed

lemma emit_env [simp]:
  "configured (emit ev w) = configured w" "store_fault (emit ev w) = store_fault w"
  "clock (emit ev w) = clock w" "localKey (emit ev w) = localKey w"
  "envKey (emit ev w) = envKey w" "ai (emit ev w) = ai w"
  "parse_result (emit ev w) = parse_result w"
  "parse_questions (emit ev w) = parse_questions w" "docs (emit ev w) = docs w"
  "trace (emit ev w) = trace w @ [ev]"
  by (simp_all add: emit_def)

lemma processInsights_eq:
  "processInsights qs w =
     (if getApiKey w = [] then (Inl no_api_key, w)
      else case ai w (InsightRequest qs) of
             Inl e \<Rightarrow> (Inl e, emit (AiRequest (InsightRequest qs)) w)
           | Inr r \<Rightarrow>
               (case parse_result w (trim (strip_fences (textOutput r))) of
                  Some res \<Rightarrow> (Inr (res\<lparr>sources := Some (grounding_sources r)\<rparr>),
                               emit (AiRequest (InsightRequest qs)) w)
                | None \<Rightarrow> (Inl invalid_structure, emit (AiRequest (InsightRequest qs)) w)))"
  by (simp add: processInsights_def bind_io_def generateContent_def throw_io_def return_io_def
      Let_def split: sum.splits option.splits)

lemma executeProcessing_eq:
  "executeProcessing batch hs a w =
     (if batch = []
      then (Inr (a\<lparr>error := Some ''No new questions to process.'', status := IDLE,
                    pendingBatch := None\<rparr>), w)
      else if \<not> isApiKeySet a
      then (Inr (a\<lparr>error := Some ''AI Logic Engine is offline. Please configure your API key.'',
                    status := ERROR\<rparr>), w)
      else case processInsights (formattedQuestions batch) w of
             (Inl err, w1) \<Rightarrow>
               (Inr (a\<lparr>status := ERROR, error := Some (message_or err), pendingBatch := None\<rparr>),
                w1)
           | (Inr ex, w1) \<Rightarrow>
               (Inr (a\<lparr>status := SUCCESS, error := None, pendingBatch := None,
                        result := Some ex\<rparr>),
                synced hs (domain ex) (blocks_of ex) w1))"
proof -
  note sb = catch_save_blocks
  show ?thesis
    by (simp add: executeProcessing_def Let_def bind_io_def return_io_def sb blocks_of_def
        message_or_def catch_io_def [of "\<lambda>w. case processInsights _ w of (Inl e, w') \<Rightarrow> _ e w' | (Inr x, w') \<Rightarrow> _ x w'"]
        split: prod.splits sum.splits)
qed

lemma executeProcessing_trace:
  "\<exists>sets. list_all is_sync sets
     \<and> (trace (snd (executeProcessing batch hs a w)) = trace w
        \<or> trace (snd (executeProcessing batch hs a w))
            = trace w @ AiRequest (InsightRequest (formattedQuestions batch)) # sets)"
proof -
  let ?req = "AiRequest (InsightRequest (formattedQuestions batch))"
  have sb: "\<exists>sets. list_all is_sync sets
              \<and> trace (synced hs d bs (emit ?req w)) = trace w @ ?req # sets"
    for d bs
    using synced_trace [of hs d bs "emit ?req w"] by auto
  have nil: "list_all is_sync []" by simp
  show ?thesis
    unfolding executeProcessing_eq processInsights_eq
    using sb nil
    by (auto split: sum.splits option.splits)
qed

lemma StoreSet_within: "list_all is_StoreSet evs \<Longrightarrow> list_all (request_within n) evs"
  by (induction evs) (auto simp: is_StoreSet_def request_within_def split: event.splits)

lemma sync_within: "list_all is_sync evs \<Longrightarrow> list_all (request_within n) evs"
  by (induction evs) (auto simp: is_sync_def request_within_def split: event.splits)

lemma executeProcessing_within:
  assumes "length batch \<le> n"
  shows "list_all (request_within n) (new_events w (snd (executeProcessing batch hs a w)))"
proof -
  obtain sets where s: "list_all is_sync sets"
    and t: "trace (snd (executeProcessing batch hs a w)) = trace w
        \<or> trace (snd (executeProcessing batch hs a w))
            = trace w @ AiRequest (InsightRequest (formattedQuestions batch)) # sets"
    using executeProcessing_trace by blast
  from t show ?thesis
  proof
    assume "trace (snd (executeProcessing batch hs a w)) = trace w"
    then show ?thesis by (simp add: new_events_def)
  next
    assume "trace (snd (executeProcessing batch hs a w))
            = trace w @ AiRequest (InsightRequest (formattedQuestions batch)) # sets"
    then show ?thesis
      using assms sync_within [OF s, of n]
      by (simp add: new_events_def request_within_def formattedQuestions_def)
  qed
qed

lemma executeProcessing_pending:
  "fst (executeProcessing batch hs a w) = Inr a' \<Longrightarrow> pending_within n a
   \<Longrightarrow> pending_within n a'"
  by (auto simp: executeProcessing_eq pending_within_def split: if_splits prod.splits sum.splits)

lemma length_rawQuestions: "length (rawQuestions t) \<le> 6"
  by (simp add: rawQuestions_def)

lemma length_raw_index: "length (raw_index t) \<le> 6"
  by (simp add: raw_index_def)

lemma length_without_indices: "length (without_indices ds xs) \<le> length xs"
proof -
  have "length (filter (\<lambda>(x, i). i \<notin> set ds) (zip xs [0..<length xs]))
          \<le> length (zip xs [0..<length xs])"
    by (rule length_filter_le)
  then show ?thesis by (simp add: without_indices_def)
qed

lemma new_events_checked:
  "new_events w (snd (m (checked hs w))) =
     (if configured w then map StoreGet hs else []) @ new_events (checked hs w) (snd (m (checked hs w)))"
  if "\<exists>evs. trace (snd (m (checked hs w))) = trace (checked hs w) @ evs"
  using that by (auto simp: new_events_def checked_def)

lemma executeProcessing_extends:
  "\<exists>evs. trace (snd (executeProcessing batch hs a w)) = trace w @ evs"
  using executeProcessing_trace [of batch hs a w] by auto

lemma StoreGet_within: "list_all (request_within n) (map StoreGet hs)"
  by (induction hs) (simp_all add: request_within_def)

lemma handleInitialScan_within:
  "list_all (request_within 6) (new_events w (snd (handleInitialScan a w)))"
proof -
  let ?rqs = "rawQuestions (inputText a)"
  let ?hs = "map getQuestionHash ?rqs"
  let ?a1 = "a\<lparr>status := LOADING, error := None\<rparr>"
  have 1: "list_all (request_within 6) (new_events w w)" by (simp add: new_events_def)
  have 2: "list_all (request_within 6) (new_events w (checked ?hs w))"
    using StoreGet_within [of 6 ?hs] by (simp add: new_events_def checked_def)
  have 3: "list_all (request_within 6)
             (new_events w (snd (executeProcessing ?rqs ?hs ?a1 (checked ?hs w))))"
    using new_events_checked [of "executeProcessing ?rqs ?hs ?a1" ?hs w]
      executeProcessing_extends [of ?rqs ?hs ?a1 "checked ?hs w"]
      executeProcessing_within [where batch = ?rqs and n = 6 and w = "checked ?hs w"
        and hs = ?hs and a = ?a1]
      length_rawQuestions [of "inputText a"] StoreGet_within [of 6 ?hs]
    by simp
  show ?thesis
    unfolding handleInitialScan_eq using 1 2 3 by simp
qed

lemma handleInitialScan_pending:
  assumes "fst (handleInitialScan a w) = Inr a'" "pending_within 6 a"
  shows "pending_within 6 a'"
proof -
  let ?rqs = "rawQuestions (inputText a)"
  let ?hs = "map getQuestionHash ?rqs"
  let ?a1 = "a\<lparr>status := LOADING, error := None\<rparr>"
  have a1: "pending_within 6 ?a1" using assms(2) by (simp add: pending_within_def)
  have ex: "fst (executeProcessing ?rqs ?hs ?a1 (checked ?hs w)) = Inr a' \<Longrightarrow> pending_within 6 a'"
    using executeProcessing_pending a1 by blast
  from assms show ?thesis
    unfolding handleInitialScan_eq
    using ex length_rawQuestions [of "inputText a"]
    by (auto simp: pending_within_def split: if_splits)
qed


lemma onProcessAll_within:
  "pending_within 6 a \<Longrightarrow> list_all (request_within 6) (new_events w (snd (onProcessAll a w)))"
  using executeProcessing_within [of _ 6 w _ a]
  by (auto simp: onProcessAll_def pending_within_def throw_fault_def throw_io_def new_events_def
      split: option.splits)

lemma onSkipDuplicates_within:
  "pending_within 6 a \<Longrightarrow> list_all (request_within 6) (new_events w (snd (onSkipDuplicates a w)))"
proof (cases "pendingBatch a")
  case None
  then show ?thesis by (simp add: onSkipDuplicates_def throw_fault_def throw_io_def new_events_def)
next
  case (Some pb)
  assume "pending_within 6 a"
  with Some have "length (without_indices (duplicateIndices pb) (questions pb)) \<le> 6"
    using length_without_indices [of "duplicateIndices pb" "questions pb"]
    by (simp add: pending_within_def)
  then show ?thesis
    using Some by (simp add: onSkipDuplicates_def executeProcessing_within)
qed

lemma onProcessAll_pending:
  "fst (onProcessAll a w) = Inr a' \<Longrightarrow> pending_within 6 a \<Longrightarrow> pending_within 6 a'"
  using executeProcessing_pending [of _ _ a w a' 6]
  by (auto simp: onProcessAll_def throw_fault_def throw_io_def split: option.splits)

lemma onSkipDuplicates_pending:
  "fst (onSkipDuplicates a w) = Inr a' \<Longrightarrow> pending_within 6 a \<Longrightarrow> pending_within 6 a'"
  using executeProcessing_pending [of _ _ a w a' 6]
  by (auto simp: onSkipDuplicates_def throw_fault_def throw_io_def split: option.splits)

lemma save_blocks_index_eq: "save_blocks_index hs d bs i w = save_blocks hs d bs i w"
proof (induction bs arbitrary: i w)
  case Nil
  show ?case by simp
next
  case (Cons b bs)
  have "saveToVault_index h d r = saveToVault h d r" for h r
    by (rule ext) (simp add: saveToVault_eq saveToVault_index_eq)
  then show ?case
    using Cons.IH by (simp add: bind_io_def split: option.splits prod.splits sum.splits)
qed

lemma snd_case_save_blocks:
  "snd (case p of (Inl e, w') \<Rightarrow> (f e, w') | (Inr x, w') \<Rightarrow> (g x, w')) = snd p"
  by (simp split: prod.splits sum.splits)

lemma handleProcess_world:
  "snd (handleProcess b w) =
     (if trim (inputText_index b) = [] then w
      else case ai w (InsightRequest (batch_index (inputText_index b))) of
             Inl e \<Rightarrow> emit (AiRequest (InsightRequest (batch_index (inputText_index b)))) w
           | Inr r \<Rightarrow>
               (case parse_result w (textOutput r) of
                  None \<Rightarrow> emit (AiRequest (InsightRequest (batch_index (inputText_index b)))) w
                | Some res \<Rightarrow>
                    snd (save_blocks (map getQuestionHash (raw_index (inputText_index b)))
                           (domain res) (blocks_of res) 0
                           (emit (AiRequest (InsightRequest (batch_index (inputText_index b)))) w))))"
  by (simp add: handleProcess_def Let_def catch_io_def bind_io_def return_io_def throw_fault_def
      throw_io_def syntax_error_def processInsights_index_def generateContent_def save_blocks_index_eq blocks_of_def
      batch_index_def snd_case_save_blocks
      split: sum.splits option.splits)

lemma handleProcess_within:
  "list_all (request_within 6) (new_events w (snd (handleProcess b w)))"
proof -
  let ?req = "AiRequest (InsightRequest (batch_index (inputText_index b)))"
  have r: "request_within 6 ?req"
    using length_raw_index [of "inputText_index b"]
    by (simp add: request_within_def batch_index_def)
  have sb: "list_all (request_within 6) (new_events w (snd (save_blocks hs d bs 0 (emit ?req w))))"
    for hs d bs
  proof -
    obtain evs where "trace (snd (save_blocks hs d bs 0 (emit ?req w))) = trace (emit ?req w) @ evs"
      "list_all is_StoreSet evs"
      using save_blocks_trace by blast
    then show ?thesis using r StoreSet_within [of evs 6] by (simp add: new_events_def)
  qed
  show ?thesis
    unfolding handleProcess_world
    using r sb by (auto simp: new_events_def split: sum.splits option.splits)
qed


subsection \<open>The size of the batch\<close>

lemma handleInitialScan_extends:
  "prefix (trace w) (trace (snd (handleInitialScan a w)))"
  using executeProcessing_extends
          [of "rawQuestions (inputText a)" "map getQuestionHash (rawQuestions (inputText a))"
              "a\<lparr>status := LOADING, error := None\<rparr>"
              "checked (map getQuestionHash (rawQuestions (inputText a))) w"]
  by (auto simp: handleInitialScan_eq checked_def prefix_def)

lemma save_blocks_extends: "prefix (trace w) (trace (snd (save_blocks hs d bs i w)))"
  using save_blocks_trace [of hs d bs i w] by (auto simp: prefix_def)

lemma handleProcess_extends:
  "prefix (trace w) (trace (snd (handleProcess b w)))"
proof -
  have "prefix (trace w) (trace (snd (save_blocks hs d bs 0 (emit ev w))))" for hs d bs ev
    using save_blocks_extends [of "emit ev w" hs d bs 0]
    by (auto simp: prefix_def)
  then show ?thesis
    by (auto simp: handleProcess_world split: sum.splits option.splits)
qed

text \<open>
  C5, as stated, fails on \<open>handleProcess\<close> of index.tsx: it keeps a chunk that does not
  contain the marker \<open>Question:\<close>, because it looks for the marker in small letters in
  the chunk in small letters.
\<close>

theorem batch_index_counterexample:
  "raw_index ''question: a'' = [''question: a'']
   \<and> \<not> includes_str ''question: a'' ''Question:''"
  by code_simp

text \<open>
  C5 (amended). For every staging text, however many question chunks it contains, every
  batch sent to the AI for insight generation has at most 6 questions. The trimmed text is
  split at \<open>/\n\s*\n/\<close>; \<open>handleInitialScan\<close> of App.tsx keeps the chunks that contain
  the marker \<open>Question:\<close>, \<open>handleProcess\<close> of index.tsx those that contain it in any
  letter case; only the first 6 kept chunks are processed. Every request of a scan has at
  most 6 questions; a pending batch never holds more than 6, so the requests of
  \<open>Skip Duplicates\<close> and \<open>Process All Anyway\<close> have at most 6 as well.
\<close>

theorem batch_at_most_six:
  "rawQuestions t = take 6 (filter (\<lambda>c. includes_str c ''Question:'') (split_blank [] (trim t)))
   \<and> raw_index t
       = take 6 (filter (\<lambda>c. includes_str (toLowerCase c) ''question:'') (split_blank [] (trim t)))
   \<and> length (rawQuestions t) \<le> 6
   \<and> length (raw_index t) \<le> 6
   \<and> prefix (trace w) (trace (snd (handleInitialScan a w)))
   \<and> list_all (request_within 6) (new_events w (snd (handleInitialScan a w)))
   \<and> prefix (trace w) (trace (snd (handleProcess b w)))
   \<and> list_all (request_within 6) (new_events w (snd (handleProcess b w)))
   \<and> (pending_within 6 a \<longrightarrow>
        list_all (request_within 6) (new_events w (snd (onSkipDuplicates a w)))
        \<and> list_all (request_within 6) (new_events w (snd (onProcessAll a w))))
   \<and> (pending_within 6 a \<and>
        (fst (handleInitialScan a w) = Inr a' \<or> fst (onSkipDuplicates a w) = Inr a'
         \<or> fst (onProcessAll a w) = Inr a')
        \<longrightarrow> pending_within 6 a')"
proof -
  have 1: "rawQuestions t
             = take 6 (filter (\<lambda>c. includes_str c ''Question:'') (split_blank [] (trim t)))"
    by (simp add: rawQuestions_def)
  have 2: "raw_index t
       = take 6 (filter (\<lambda>c. includes_str (toLowerCase c) ''question:'') (split_blank [] (trim t)))"
    by (simp add: raw_index_def)
  have 3: "pending_within 6 a \<longrightarrow>
        list_all (request_within 6) (new_events w (snd (onSkipDuplicates a w)))
        \<and> list_all (request_within 6) (new_events w (snd (onProcessAll a w)))"
    by (simp add: onSkipDuplicates_within onProcessAll_within)
  have 4: "pending_within 6 a \<and>
        (fst (handleInitialScan a w) = Inr a' \<or> fst (onSkipDuplicates a w) = Inr a'
         \<or> fst (onProcessAll a w) = Inr a')
        \<longrightarrow> pending_within 6 a'"
    using handleInitialScan_pending onSkipDuplicates_pending onProcessAll_pending by blast
  show ?thesis
    using 1 2 3 4 length_rawQuestions [of t] length_raw_index [of t]
      handleInitialScan_extends [of w a] handleInitialScan_within [of w a]
      handleProcess_extends [of w b] handleProcess_within [of w b]
    by blast
qed

text \<open>Seven staged questions: the first six make the batch.\<close>

theorem batch_at_most_six_witness:
  "rawQuestions seven_questions
     = [''Question: 1'', ''Question: 2'', ''Question: 3'', ''Question: 4'', ''Question: 5'',
        ''Question: 6'']
   \<and> raw_index seven_questions = rawQuestions seven_questions
   \<and> list_all (request_within 6)
        (new_events (ex_world [] healthy)
           (snd (handleInitialScan (ex_app seven_questions) (ex_world [] healthy))))
   \<and> list_all (request_within 6)
        (new_events (ex_world [] healthy)
           (snd (handleProcess (ex_app_index seven_questions) (ex_world [] healthy))))
   \<and> list_all (request_within 6)
        (new_events (ex_world [] healthy)
           (snd (onProcessAll (ex_app seven_questions) (ex_world [] healthy))))
   \<and> list_all (request_within 6)
        (new_events (ex_world [] healthy)
           (snd (onSkipDuplicates (ex_app seven_questions) (ex_world [] healthy))))"
proof -
  have e1: "take 6 (filter (\<lambda>c. includes_str c ''Question:'')
                      (split_blank [] (trim seven_questions)))
        = [''Question: 1'', ''Question: 2'', ''Question: 3'', ''Question: 4'', ''Question: 5'',
           ''Question: 6'']"
    by code_simp
  have e2: "take 6 (filter (\<lambda>c. includes_str (toLowerCase c) ''question:'')
                      (split_blank [] (trim seven_questions)))
        = [''Question: 1'', ''Question: 2'', ''Question: 3'', ''Question: 4'', ''Question: 5'',
           ''Question: 6'']"
    by code_simp
  have e3: "pending_within 6 (ex_app seven_questions)"
    by (simp add: pending_within_def ex_app_def)
  show ?thesis
    using batch_at_most_six [of seven_questions "ex_world [] healthy" "ex_app seven_questions"
        "ex_app_index seven_questions"]
    by (simp add: e1 e2 e3)
qed


subsection \<open>Relations between the world before and after\<close>







lemma handleInitialScan_world:
  "snd (handleInitialScan a w) =
     (if trim (inputText a) = [] \<or> rawQuestions (inputText a) = [] then w
      else if list_ex (lookup_finds w) (map getQuestionHash (rawQuestions (inputText a)))
      then checked (map getQuestionHash (rawQuestions (inputText a))) w
      else snd (executeProcessing (rawQuestions (inputText a))
                  (map getQuestionHash (rawQuestions (inputText a)))
                  (a\<lparr>status := LOADING, error := None\<rparr>)
                  (checked (map getQuestionHash (rawQuestions (inputText a))) w)))"
  by (simp add: handleInitialScan_eq)







subsection \<open>The hash of a question\<close>

lemma hex_digit_table: "list_all (\<lambda>d. hex_digit d = hex_digits ! d) [0..<16]"
  by code_simp

lemma hex_digit_nth: "d < 16 \<Longrightarrow> hex_digit d = hex_digits ! d"
  using hex_digit_table by (simp add: list_all_iff)

lemma pad_toString16:
  assumes "n < 256"
  shows "padStart0 2 (toString16 n) = [hex_digits ! (n div 16), hex_digits ! (n mod 16)]"
proof (cases "n < 16")
  case True
  then show ?thesis
    by (simp add: toString16.simps [of n] padStart0_def hex_digit_nth hex_digits_def)
next
  case False
  with assms have d: "n div 16 < 16" by simp
  have "toString16 n = toString16 (n div 16) @ [hex_digit (n mod 16)]"
    using False by (simp add: toString16.simps [of n])
  also have "toString16 (n div 16) = [hex_digit (n div 16)]"
    using d by (simp add: toString16.simps [of "n div 16"])
  finally show ?thesis using d by (simp add: padStart0_def hex_digit_nth)
qed

lemma unat_byte: "unat (b :: 8 word) < 256"
  using unsigned_less [of b, where 'a = nat] by simp

lemma getQuestionHash_hex:
  "getQuestionHash s = hex_lower (sha256 (encode (toLowerCase (trim s))))"
  by (simp add: getQuestionHash_def hex_lower_def Let_def pad_toString16 unat_byte)

lemma sha_round_length: "length s = 8 \<Longrightarrow> length (sha_round s kw) = 8"
  by (auto simp: sha_round_def Let_def numeral_eq_Suc length_Suc_conv)

lemma foldl_sha_round_length: "length s = 8 \<Longrightarrow> length (foldl sha_round s kws) = 8"
  by (induction kws arbitrary: s) (simp_all add: sha_round_length)

lemma compress_length: "length hs = 8 \<Longrightarrow> length (compress hs blk) = 8"
  by (simp add: compress_def Let_def foldl_sha_round_length)

lemma foldl_compress_length: "length hs = 8 \<Longrightarrow> length (foldl compress hs blks) = 8"
  by (induction blks arbitrary: hs) (simp_all add: compress_length)

lemma length_concat_const:
  "(\<And>x. length (f x) = k) \<Longrightarrow> length (concat (map f xs)) = k * length xs"
  by (induction xs) simp_all

lemma sha256_length: "length (sha256 m) = 32"
proof -
  have "length (foldl compress H256 (chunks_of 64 (sha_pad m))) = 8"
    by (rule foldl_compress_length) (simp add: H256_def)
  moreover have "length (bytes_of_word32 x) = 4" for x
    by (simp add: bytes_of_word32_def)
  ultimately show ?thesis
    by (simp add: sha256_def length_concat_const [where k = 4])
qed

lemma hex_lower_length: "length (hex_lower bs) = 2 * length bs"
  by (simp add: hex_lower_def length_concat_const [where k = 2])

lemma hex_lower_digits: "list_all (\<lambda>c. c \<in> set hex_digits) (hex_lower bs)"
proof -
  have "hex_digits ! k \<in> set hex_digits" if "k < 16" for k
    using that by (intro nth_mem) (simp add: hex_digits_def)
  moreover have "unat b div 16 < 16" "unat b mod 16 < 16" for b :: "8 word"
    using unat_byte [of b] by simp_all
  ultimately show ?thesis
    by (induction bs) (simp_all add: hex_lower_def)
qed

text \<open>
  C2. For every string \<open>s\<close>, \<open>getQuestionHash s\<close> is the lower-case hexadecimal encoding,
  64 hexadecimal digits, of the SHA-256 digest of (the UTF-8 bytes of) \<open>s\<close> trimmed of
  surrounding white space and put in small letters. Hence strings with the same
  normalized text have the same hash; in particular \<open>getQuestionHash\<close> gives the same
  hash for two strings that differ only in the case of letters or in white space at the
  start and the end.
\<close>

theorem getQuestionHash_sha256:
  "getQuestionHash s = hex_lower (sha256 (encode (toLowerCase (trim s))))
   \<and> length (getQuestionHash s) = 64
   \<and> list_all (\<lambda>c. c \<in> set ''0123456789abcdef'') (getQuestionHash s)
   \<and> (toLowerCase (trim s) = toLowerCase (trim t) \<longrightarrow> getQuestionHash s = getQuestionHash t)
   \<and> (list_all isWhiteSpace a \<and> list_all isWhiteSpace b \<and> list_all isWhiteSpace c
        \<and> list_all isWhiteSpace d \<and> toLowerCase u = toLowerCase v
        \<longrightarrow> getQuestionHash (a @ u @ b) = getQuestionHash (c @ v @ d))"
proof -
  have 1: "getQuestionHash s = hex_lower (sha256 (encode (toLowerCase (trim s))))"
    by (rule getQuestionHash_hex)
  have 2: "length (getQuestionHash s) = 64"
    by (simp add: getQuestionHash_hex hex_lower_length sha256_length)
  have 3: "list_all (\<lambda>c. c \<in> set ''0123456789abcdef'') (getQuestionHash s)"
    using hex_lower_digits [of "sha256 (encode (toLowerCase (trim s)))"]
    by (simp add: getQuestionHash_hex hex_digits_def)
  have 4: "toLowerCase (trim s) = toLowerCase (trim t) \<longrightarrow> getQuestionHash s = getQuestionHash t"
    by (simp add: getQuestionHash_def)
  have 5: "getQuestionHash (a @ u @ b) = getQuestionHash (c @ v @ d)"
    if "list_all isWhiteSpace a" "list_all isWhiteSpace b" "list_all isWhiteSpace c"
       "list_all isWhiteSpace d" "toLowerCase u = toLowerCase v"
  proof -
    have "toLowerCase (trim (a @ u @ b)) = trim (toLowerCase u)"
      using that(1,2) by (simp add: trim_ws_append toLowerCase_trim)
    moreover have "toLowerCase (trim (c @ v @ d)) = trim (toLowerCase v)"
      using that(3,4) by (simp add: trim_ws_append toLowerCase_trim)
    ultimately show ?thesis using that(5) by (simp add: getQuestionHash_def)
  qed
  from 1 2 3 4 5 show ?thesis by blast
qed


text \<open>The test vector of FIPS 180-4 for the message \<open>abc\<close>.\<close>

lemma hash_abc:
  "getQuestionHash ''abc'' = ''ba7816bf8f01cfea414140de5dae2223b00361a396177a9cb410ff61f20015ad''"
  by code_simp

text \<open>Two spellings of one question have one hash, and the hash of \<open>abc\<close> is the
  digest the standard gives.\<close>

theorem getQuestionHash_sha256_witness:
  "getQuestionHash ('' '' @ ''What is RBAC?'' @ [NL]) = getQuestionHash ([] @ ''what is rbac?'' @ [])
   \<and> getQuestionHash (''  ABC '') = getQuestionHash ''abc''
   \<and> getQuestionHash ''abc''
       = ''ba7816bf8f01cfea414140de5dae2223b00361a396177a9cb410ff61f20015ad''
   \<and> length (getQuestionHash ''abc'') = 64"
proof -
  have e1: "list_all isWhiteSpace '' '' \<and> list_all isWhiteSpace [NL] \<and> list_all isWhiteSpace []"
    by code_simp
  have e2: "toLowerCase ''What is RBAC?'' = toLowerCase ''what is rbac?''"
    by code_simp
  have e3: "toLowerCase (trim ''  ABC '') = toLowerCase (trim ''abc'')"
    by code_simp
  note T = getQuestionHash_sha256
  note c2 = conjunct2
  have w1: "getQuestionHash ('' '' @ ''What is RBAC?'' @ [NL])
              = getQuestionHash ([] @ ''what is rbac?'' @ [])"
    using T [where a = "'' ''" and u = "''What is RBAC?''" and b = "[NL]" and c = "[]"
               and v = "''what is rbac?''" and d = "[]", THEN c2, THEN c2, THEN c2, THEN c2]
      e1 e2
    by blast
  have w2: "getQuestionHash (''  ABC '') = getQuestionHash ''abc''"
    using T [where s = "''  ABC ''" and t = "''abc''", THEN c2, THEN c2, THEN c2, THEN conjunct1]
      e3
    by blast
  have w3: "length (getQuestionHash ''abc'') = 64"
    using T [where s = "''abc''", THEN c2, THEN conjunct1] .
  from w1 w2 w3 hash_abc show ?thesis by blast
qed


subsection \<open>Missing credentials and malformed responses\<close>

lemma getApiKey_empty:
  "(getApiKey w = []) =
     ((localKey w = None \<or> localKey w = Some []) \<and> (envKey w = None \<or> envKey w = Some []))"
  by (auto simp: getApiKey_def split: option.splits)

lemma cleanAndExtractAnswers_no_key:
  "getApiKey w = [] \<Longrightarrow> cleanAndExtractAnswers raw pdf w = (Inl no_api_key, w)"
  by (simp add: cleanAndExtractAnswers_def throw_io_def)

text \<open>
  C7, as stated, fails for a response whose text is the empty string: the empty string
  does not parse as JSON, but \<open>processInsights\<close> reads \<open>response.text || '{}'\<close>, parses
  \<open>{}\<close> and returns a result instead of throwing.
\<close>

theorem processInsights_empty_text_counterexample:
  "getApiKey w7 \<noteq> []
   \<and> ai w7 (InsightRequest []) = Inr empty_text_response
   \<and> response_text empty_text_response = Some []
   \<and> parse_result w7 (trim (strip_fences [])) = None
   \<and> fst (processInsights [] w7) = Inr (ex_result\<lparr>sources := Some []\<rparr>)"
  by (simp add: w7_def ex_world_def empty_text_response_def getApiKey_def processInsights_eq
      textOutput_def grounding_sources_def trim_def isWhiteSpace_def)

text \<open>
  C7 (amended). With no API key configured (none, or an empty one, in local storage and in
  the environment) every call of \<open>cleanAndExtractAnswers\<close> or \<open>processInsights\<close> throws
  the error \<open>No API key configured. Please add your Gemini API key in Settings.\<close> and
  leaves the world as it was: no request is issued. For every AI response whose text is
  not empty and does not parse as JSON after the code fences are stripped and the text is
  trimmed, \<open>processInsights\<close> throws the error \<open>Invalid structure returned from AI. Try
  a smaller batch.\<close>; an absent or empty text is read as \<open>{}\<close>. In \<open>executeProcessing\<close>
  either error ends as the message shown to the user, with the status \<open>ERROR\<close>.
\<close>

theorem missing_key_and_malformed_response:
  "((localKey w = None \<or> localKey w = Some []) \<and> (envKey w = None \<or> envKey w = Some [])
      \<longrightarrow> cleanAndExtractAnswers rawText pdf w = (Inl no_api_key, w)
          \<and> processInsights qs w = (Inl no_api_key, w))
   \<and> (getApiKey w \<noteq> [] \<and> ai w (InsightRequest qs) = Inr r \<and> response_text r = Some t
        \<and> t \<noteq> [] \<and> parse_result w (trim (strip_fences t)) = None
      \<longrightarrow> fst (processInsights qs w) = Inl invalid_structure)
   \<and> (getApiKey w \<noteq> [] \<and> ai w (InsightRequest qs) = Inr r
        \<and> (response_text r = None \<or> response_text r = Some [])
      \<longrightarrow> fst (processInsights qs w) =
            (case parse_result w ''{}'' of
               Some res \<Rightarrow> Inr (res\<lparr>sources := Some (grounding_sources r)\<rparr>)
             | None \<Rightarrow> Inl invalid_structure))
   \<and> (batch \<noteq> [] \<and> isApiKeySet a \<and> fst (processInsights (formattedQuestions batch) w) = Inl e
        \<and> (e = no_api_key \<or> e = invalid_structure)
      \<longrightarrow> fst (executeProcessing batch hs a w)
            = Inr (a\<lparr>status := ERROR, error := Some (message e), pendingBatch := None\<rparr>))
   \<and> message no_api_key = ''No API key configured. Please add your Gemini API key in Settings.''
   \<and> message invalid_structure = ''Invalid structure returned from AI. Try a smaller batch.''"
proof -
  have tr: "trim (strip_fences ''{}'') = ''{}''" by code_simp
  have 1: "(localKey w = None \<or> localKey w = Some []) \<and> (envKey w = None \<or> envKey w = Some [])
      \<longrightarrow> cleanAndExtractAnswers rawText pdf w = (Inl no_api_key, w)
          \<and> processInsights qs w = (Inl no_api_key, w)"
    using getApiKey_empty [of w]
    by (simp add: cleanAndExtractAnswers_no_key processInsights_eq)
  have 2: "getApiKey w \<noteq> [] \<and> ai w (InsightRequest qs) = Inr r \<and> response_text r = Some t
        \<and> t \<noteq> [] \<and> parse_result w (trim (strip_fences t)) = None
      \<longrightarrow> fst (processInsights qs w) = Inl invalid_structure"
    by (simp add: processInsights_eq textOutput_def)
  have 3: "getApiKey w \<noteq> [] \<and> ai w (InsightRequest qs) = Inr r
        \<and> (response_text r = None \<or> response_text r = Some [])
      \<longrightarrow> fst (processInsights qs w) =
            (case parse_result w ''{}'' of
               Some res \<Rightarrow> Inr (res\<lparr>sources := Some (grounding_sources r)\<rparr>)
             | None \<Rightarrow> Inl invalid_structure)"
    using tr by (auto simp: processInsights_eq textOutput_def split: option.splits)
  have 4: "batch \<noteq> [] \<and> isApiKeySet a \<and> fst (processInsights (formattedQuestions batch) w) = Inl e
        \<and> (e = no_api_key \<or> e = invalid_structure)
      \<longrightarrow> fst (executeProcessing batch hs a w)
            = Inr (a\<lparr>status := ERROR, error := Some (message e), pendingBatch := None\<rparr>)"
    by (auto simp: executeProcessing_eq message_or_def no_api_key_def invalid_structure_def
        split: prod.splits sum.splits)
  have 5: "message no_api_key = ''No API key configured. Please add your Gemini API key in Settings.''
   \<and> message invalid_structure = ''Invalid structure returned from AI. Try a smaller batch.''"
    by (simp add: no_api_key_def invalid_structure_def)
  from 1 2 3 4 5 show ?thesis by blast
qed

text \<open>No key: both calls throw and the world is unchanged. A text that is not JSON: the
  error of the invalid structure, shown by \<open>executeProcessing\<close>.\<close>

theorem missing_key_and_malformed_response_witness:
  "cleanAndExtractAnswers ''raw'' None w7_no_key = (Inl no_api_key, w7_no_key)
   \<and> processInsights (formattedQuestions [''Question: a'']) w7_no_key = (Inl no_api_key, w7_no_key)
   \<and> fst (processInsights (formattedQuestions [''Question: a'']) w7_bad_json)
       = Inl invalid_structure
   \<and> fst (processInsights (formattedQuestions [''Question: a'']) w7)
       = Inr (ex_result\<lparr>sources := Some []\<rparr>)
   \<and> fst (executeProcessing [''Question: a''] [''h''] (ex_app ''Question: a'') w7_bad_json)
       = Inr ((ex_app ''Question: a'')
               \<lparr>status := ERROR, error := Some (message invalid_structure),
                pendingBatch := None\<rparr>)"
proof -
  note T = missing_key_and_malformed_response
  note c2 = conjunct2
  let ?qs = "formattedQuestions [''Question: a'']"
  have k: "getApiKey w7_bad_json \<noteq> []" "getApiKey w7 \<noteq> []"
    by (simp_all add: w7_bad_json_def w7_def ex_world_def getApiKey_def)
  have p: "parse_result w7_bad_json (trim (strip_fences ''not json'')) = None"
  proof -
    have "trim (strip_fences ''not json'') = ''not json''" by code_simp
    then show ?thesis by (simp add: w7_bad_json_def ex_world_def)
  qed
  have w1: "cleanAndExtractAnswers ''raw'' None w7_no_key = (Inl no_api_key, w7_no_key)
            \<and> processInsights ?qs w7_no_key = (Inl no_api_key, w7_no_key)"
    using T [where w = w7_no_key and rawText = "''raw''" and pdf = None and qs = ?qs,
             THEN conjunct1]
    by (simp add: w7_no_key_def ex_world_def)
  have w2: "fst (processInsights ?qs w7_bad_json) = Inl invalid_structure"
    using T [where w = w7_bad_json and qs = ?qs and t = "''not json''"
               and r = "\<lparr>response_text = Some ''not json'', groundingChunks = None\<rparr>",
             THEN c2, THEN conjunct1] k p
    by (simp add: w7_bad_json_def ex_world_def)
  have w3: "fst (processInsights ?qs w7) = Inr (ex_result\<lparr>sources := Some []\<rparr>)"
    using T [where w = w7 and qs = ?qs and r = empty_text_response,
             THEN c2, THEN c2, THEN conjunct1] k
    by (simp add: w7_def ex_world_def empty_text_response_def grounding_sources_def)
  have w4: "fst (executeProcessing [''Question: a''] [''h''] (ex_app ''Question: a'') w7_bad_json)
       = Inr ((ex_app ''Question: a'')
               \<lparr>status := ERROR, error := Some (message invalid_structure),
                pendingBatch := None\<rparr>)"
    using T [where w = w7_bad_json and batch = "[''Question: a'']" and a = "ex_app ''Question: a''"
               and e = invalid_structure and hs = "[''h'']",
             THEN c2, THEN c2, THEN c2, THEN conjunct1] w2
    by (simp add: ex_app_def)
  from w1 w2 w3 w4 show ?thesis by blast
qed


subsection \<open>Evaluations used in the examples\<close>

lemma getQuestionHash_nonempty: "getQuestionHash s \<noteq> []"
proof -
  have "length (getQuestionHash s) = 64"
    by (simp add: getQuestionHash_hex hex_lower_length sha256_length)
  then show ?thesis by auto
qed

lemma hash_a_nonempty: "hash_a \<noteq> []"
  by (simp add: hash_a_def getQuestionHash_nonempty)

lemma rawQuestions_example: "rawQuestions ''Question: a'' = [''Question: a'']"
  by code_simp

lemma trim_example: "trim ''Question: a'' = ''Question: a''"
  by code_simp

lemma trim_braces: "trim (strip_fences ''{}'') = ''{}''" "trim ''{}'' = ''{}''"
  by code_simp+

lemma trim_null_text: "trim (strip_fences null_text) = null_text" "null_text \<noteq> []"
  by (code_simp, simp add: null_text_def)

lemma fetchVault_eq:
  "fetchVault w =
     (if \<not> configured w then (Inr [], w)
      else if store_fault w GetDocs = None
      then (Inr (order_desc (map snd (docs w))), emit StoreQuery w)
      else (Inr [], emit StoreQuery w))"
  by (simp add: fetchVault_def catch_io_def bind_io_def getDb_def getDocs_def return_io_def
      split: option.splits)

subsection \<open>Persistence failures\<close>

text \<open>
  C6 says that persistence failures are logged. The code has the handlers for it: the
  \<open>console.warn\<close> around the loop of \<open>executeProcessing\<close> that saves the blocks
  (\<open>Vault sync failed\<close>), and the \<open>console.log\<close> around the duplicate checks of
  \<open>handleInitialScan\<close>. But \<open>saveToVault\<close>, \<open>checkDuplicate\<close> and \<open>fetchVault\<close>
  catch every failure of the store themselves, in an empty \<open>catch\<close>, so no failure of
  the store reaches those handlers.

  Evaluated with a store that rejects every operation (\<open>w6\<close>) and with a store that is
  not configured (\<open>w6_unconfigured\<close>), from an empty trace: \<open>saveToVault\<close>,
  \<open>fetchVault\<close> and \<open>checkDuplicate\<close> return normally, \<open>executeProcessing\<close> and
  \<open>handleInitialScan\<close> show the result as success, and the events are the requests to
  the AI and to the store alone: nothing is written to the console. The handler of
  \<open>executeProcessing\<close> does run in the last evaluation, where the store works and the
  answer of the AI has \<open>null\<close> for a block: what it reports is the \<open>TypeError\<close> of the
  loop, not a failure of the store.
\<close>

theorem store_failure_not_logged:
  "store_fault w6 (SetDoc ''h1'') = Some (Error ''unavailable'')
   \<and> trace w6 = []
   \<and> saveToVault ''h1'' ''D'' ''R'' w6
       = (Inr (), w6\<lparr>trace := [StoreSet ''h1'' (vault_item ''h1'' ''D'' ''R'' w6)]\<rparr>)
   \<and> fetchVault w6 = (Inr [], w6\<lparr>trace := [StoreQuery]\<rparr>)
   \<and> checkDuplicate ''h1'' w6 = (Inr False, w6\<lparr>trace := [StoreGet ''h1'']\<rparr>)
   \<and> saveToVault ''h1'' ''D'' ''R'' w6_unconfigured = (Inr (), w6_unconfigured)
   \<and> fetchVault w6_unconfigured = (Inr [], w6_unconfigured)
   \<and> executeProcessing [''Question: a''] [''h1''] (ex_app ''Question: a'') w6
       = (Inr ((ex_app ''Question: a'')
                 \<lparr>status := SUCCESS, result := Some (ex_result\<lparr>sources := Some []\<rparr>)\<rparr>),
          w6\<lparr>trace :=
               [request_a,
                StoreSet ''h1''
                  (vault_item ''h1'' ''Identity'' ''Scope is inherited downwards'' w6)]\<rparr>)
   \<and> handleInitialScan (ex_app ''Question: a'') w6_unconfigured
       = (Inr ((ex_app ''Question: a'')
                 \<lparr>status := SUCCESS, result := Some (ex_result\<lparr>sources := Some []\<rparr>)\<rparr>),
          w6_unconfigured\<lparr>trace := [request_a]\<rparr>)
   \<and> executeProcessing [''Question: a''] [''h1''] (ex_app ''Question: a'') w6_null
       = (Inr ((ex_app ''Question: a'')
                 \<lparr>status := SUCCESS, result := Some (null_result\<lparr>sources := Some []\<rparr>)\<rparr>),
          w6_null\<lparr>trace :=
               [request_a,
                ConsoleWarn vault_sync_failed (ex_engine (NullRead ''foundationalRule''))]\<rparr>)"
proof -
  have 1: "store_fault w6 (SetDoc ''h1'') = Some (Error ''unavailable'')" "trace w6 = []"
    by (simp_all add: w6_def ex_world_def unavailable_def)
  have 2: "saveToVault ''h1'' ''D'' ''R'' w6
       = (Inr (), w6\<lparr>trace := [StoreSet ''h1'' (vault_item ''h1'' ''D'' ''R'' w6)]\<rparr>)"
    by (simp add: saveToVault_eq saved_def w6_def ex_world_def unavailable_def emit_def)
  have 3: "fetchVault w6 = (Inr [], w6\<lparr>trace := [StoreQuery]\<rparr>)"
    by (simp add: fetchVault_eq w6_def ex_world_def unavailable_def emit_def)
  have 4: "checkDuplicate ''h1'' w6 = (Inr False, w6\<lparr>trace := [StoreGet ''h1'']\<rparr>)"
    by (simp add: checkDuplicate_eq lookup_finds_def checked_def w6_def ex_world_def
        unavailable_def)
  have 5: "saveToVault ''h1'' ''D'' ''R'' w6_unconfigured = (Inr (), w6_unconfigured)"
    by (simp add: saveToVault_eq saved_def w6_unconfigured_def ex_world_def)
  have 6: "fetchVault w6_unconfigured = (Inr [], w6_unconfigured)"
    by (simp add: fetchVault_eq w6_unconfigured_def ex_world_def)
  have 7: "executeProcessing [''Question: a''] [''h1''] (ex_app ''Question: a'') w6
       = (Inr ((ex_app ''Question: a'')
                 \<lparr>status := SUCCESS, result := Some (ex_result\<lparr>sources := Some []\<rparr>)\<rparr>),
          w6\<lparr>trace :=
               [request_a,
                StoreSet ''h1''
                  (vault_item ''h1'' ''Identity'' ''Scope is inherited downwards'' w6)]\<rparr>)"
    by (simp add: executeProcessing_eq processInsights_eq ex_app_def w6_def ex_world_def
        getApiKey_def ex_response_def textOutput_def trim_braces ex_result_def ex_block_def
        grounding_sources_def blocks_of_def synced_def bind_io_def saveToVault_eq throw_fault_def throw_io_def return_io_def
        saved_def vault_item_def emit_def unavailable_def request_a_def)
  have 8: "handleInitialScan (ex_app ''Question: a'') w6_unconfigured
       = (Inr ((ex_app ''Question: a'')
                 \<lparr>status := SUCCESS, result := Some (ex_result\<lparr>sources := Some []\<rparr>)\<rparr>),
          w6_unconfigured\<lparr>trace := [request_a]\<rparr>)"
    using getQuestionHash_nonempty [of "''Question: a''"]
    by (simp add: handleInitialScan_eq ex_app_def rawQuestions_example trim_example
        w6_unconfigured_def ex_world_def lookup_finds_def checked_def
        executeProcessing_eq processInsights_eq
        getApiKey_def ex_response_def textOutput_def trim_braces ex_result_def ex_block_def
        grounding_sources_def blocks_of_def synced_def bind_io_def saveToVault_eq throw_fault_def throw_io_def return_io_def
        saved_def emit_def request_a_def)
  have 9: "executeProcessing [''Question: a''] [''h1''] (ex_app ''Question: a'') w6_null
       = (Inr ((ex_app ''Question: a'')
                 \<lparr>status := SUCCESS, result := Some (null_result\<lparr>sources := Some []\<rparr>)\<rparr>),
          w6_null\<lparr>trace :=
               [request_a,
                ConsoleWarn vault_sync_failed (ex_engine (NullRead ''foundationalRule''))]\<rparr>)"
    by (simp add: executeProcessing_eq processInsights_eq ex_app_def w6_null_def ex_world_def
        getApiKey_def textOutput_def trim_null_text null_result_def
        grounding_sources_def blocks_of_def synced_def bind_io_def saveToVault_eq throw_fault_def throw_io_def return_io_def
        emit_def request_a_def)
  show ?thesis by (intro conjI 1 2 3 4 5 6 7 8 9)
qed

subsection \<open>The date filter of the vault view\<close>

text \<open>
  C8 says that an item is displayed if and only if, besides matching the search, its
  \<open>masteredAt\<close> time is not before the start of the selected \<open>from\<close> date and not after
  the end (23:59:59.999) of the selected \<open>to\<close> date. \<open>filteredItems\<close> computes those
  bounds with \<open>new Date(startDate).setHours(0, 0, 0, 0)\<close> and
  \<open>new Date(endDate).setHours(23, 59, 59, 999)\<close>. The value of a date input,
  \<open>YYYY-MM-DD\<close>, is read as midnight UTC of that day, and \<open>setHours\<close> then sets the time
  of day on the local day of that instant: in a zone behind UTC that is the day before
  the selected one, so both bounds are a day early.

  Evaluated in a browser five hours behind UTC with the date \<open>2024-01-15\<close> selected and
  two items mastered at noon UTC (07:00 local time) of 14 and of 15 January: the bounds
  are 00:00 and 23:59:59.999 local time of 14 January; as \<open>from\<close> date the selection lets
  the item of 14 January through, as \<open>to\<close> date it hides the item of 15 January, and as
  both it displays the item of 14 January alone. Two hours ahead of UTC the same
  selection displays the item of 15 January alone.
\<close>

theorem date_filter_one_day_early:
  "Date_getTime behind_utc (item_masteredAt item_jan14) = Some 1705233600000
   \<and> Date_getTime behind_utc (item_masteredAt item_jan15) = Some 1705320000000
   \<and> Date_getTime behind_utc ''2024-01-15'' = Some 1705276800000
   \<and> start_of behind_utc ''2024-01-15'' = Some 1705208400000
   \<and> end_of behind_utc ''2024-01-15'' = Some 1705294799999
   \<and> filteredItems behind_utc [] ''2024-01-15'' [] [item_jan14, item_jan15]
       = [item_jan14, item_jan15]
   \<and> filteredItems behind_utc [] [] ''2024-01-15'' [item_jan14, item_jan15] = [item_jan14]
   \<and> filteredItems behind_utc [] ''2024-01-15'' ''2024-01-15'' [item_jan14, item_jan15]
       = [item_jan14]
   \<and> filteredItems ahead_of_utc [] ''2024-01-15'' ''2024-01-15'' [item_jan14, item_jan15]
       = [item_jan15]"
  by code_simp

subsection \<open>The duplicate check before the write\<close>

lemma w9_alt: "w9 = ex_world [(hash_a, ex_item hash_a)] unavailable"
  by (simp add: w9_def hash_a_def)

lemma executeProcessing_no_lookup:
  "\<exists>rest. trace (snd (executeProcessing batch hs a w)) = trace w @ rest
          \<and> \<not> list_ex is_StoreGet rest"
proof -
  obtain sets where s: "list_all is_sync sets"
    and t: "trace (snd (executeProcessing batch hs a w)) = trace w
        \<or> trace (snd (executeProcessing batch hs a w))
            = trace w @ AiRequest (InsightRequest (formattedQuestions batch)) # sets"
    using executeProcessing_trace by blast
  from s have ng: "\<not> list_ex is_StoreGet sets"
    by (induction sets) (auto simp: is_sync_def is_StoreGet_def split: event.splits)
  from t show ?thesis
  proof
    assume "trace (snd (executeProcessing batch hs a w)) = trace w"
    then show ?thesis by simp
  next
    assume "trace (snd (executeProcessing batch hs a w))
            = trace w @ AiRequest (InsightRequest (formattedQuestions batch)) # sets"
    then show ?thesis using ng by (simp add: is_StoreGet_def)
  qed
qed

lemma scan_checks_first:
  assumes "trim (inputText a) \<noteq> []" "rawQuestions (inputText a) \<noteq> []"
  shows "\<exists>rest. new_events w (snd (handleInitialScan a w))
                  = (if configured w then map StoreGet (map getQuestionHash (rawQuestions (inputText a)))
                     else []) @ rest
               \<and> \<not> list_ex is_StoreGet rest"
proof -
  let ?rqs = "rawQuestions (inputText a)"
  let ?hs = "map getQuestionHash ?rqs"
  let ?a1 = "a\<lparr>status := LOADING, error := None\<rparr>"
  let ?gets = "if configured w then map StoreGet ?hs else []"
  have tc: "trace (checked ?hs w) = trace w @ ?gets" by (simp add: checked_def)
  show ?thesis
  proof (cases "list_ex (lookup_finds w) ?hs")
    case True
    with assms have "snd (handleInitialScan a w) = checked ?hs w"
      by (simp add: handleInitialScan_world)
    then have "new_events w (snd (handleInitialScan a w)) = ?gets @ []"
      using tc by (simp add: new_events_def)
    then show ?thesis by (intro exI [of _ "[]"]) simp
  next
    case False
    with assms have sw: "snd (handleInitialScan a w)
                       = snd (executeProcessing ?rqs ?hs ?a1 (checked ?hs w))"
      by (simp add: handleInitialScan_world)
    obtain rest where r: "\<not> list_ex is_StoreGet rest"
      "trace (snd (executeProcessing ?rqs ?hs ?a1 (checked ?hs w))) = trace (checked ?hs w) @ rest"
      using executeProcessing_no_lookup [of ?rqs ?hs ?a1 "checked ?hs w"] by blast
    have "new_events w (snd (handleInitialScan a w)) = ?gets @ rest"
      unfolding sw new_events_def r(2) tc by simp
    with r(1) show ?thesis by blast
  qed
qed

lemma set_indices_of_duplicates:
  "set (indices_of_duplicates (map P hs)) = {i. i < length hs \<and> P (hs ! i)}"
  by (auto simp: indices_of_duplicates_def)

text \<open>
  C3, as stated, fails where it says that the batch is not sent to the AI when at least
  one hash already exists: the check is best effort. In \<open>w9\<close> the question is in the
  vault and every operation of the store fails; the scan takes the question as new,
  sends the batch to the AI after the one lookup, and sends the write.
\<close>

theorem scan_sends_existing_hash_counterexample:
  "map_of (docs w9) (getQuestionHash ''Question: a'') = Some (ex_item hash_a)
   \<and> rawQuestions (inputText (ex_app ''Question: a'')) = [''Question: a'']
   \<and> handleInitialScan (ex_app ''Question: a'') w9 =
       (Inr ((ex_app ''Question: a'')
               \<lparr>status := SUCCESS, result := Some (ex_result\<lparr>sources := Some []\<rparr>)\<rparr>),
        w9\<lparr>trace :=
             [StoreGet hash_a, request_a,
              StoreSet hash_a
                (vault_item hash_a ''Identity'' ''Scope is inherited downwards'' w9)]\<rparr>)"
proof -
  have 1: "map_of (docs w9) (getQuestionHash ''Question: a'') = Some (ex_item hash_a)"
    by (simp add: w9_def ex_world_def hash_a_def)
  have 2: "rawQuestions (inputText (ex_app ''Question: a'')) = [''Question: a'']"
    by (simp add: ex_app_def rawQuestions_example)
  have 3: "handleInitialScan (ex_app ''Question: a'') w9 =
       (Inr ((ex_app ''Question: a'')
               \<lparr>status := SUCCESS, result := Some (ex_result\<lparr>sources := Some []\<rparr>)\<rparr>),
        w9\<lparr>trace :=
             [StoreGet hash_a, request_a,
              StoreSet hash_a
                (vault_item hash_a ''Identity'' ''Scope is inherited downwards'' w9)]\<rparr>)"
    using hash_a_nonempty
    by (simp add: handleInitialScan_eq ex_app_def rawQuestions_example trim_example
        hash_a_def [symmetric] w9_alt ex_world_def lookup_finds_def unavailable_def checked_def
        executeProcessing_eq processInsights_eq getApiKey_def ex_response_def textOutput_def
        trim_braces ex_result_def ex_block_def grounding_sources_def blocks_of_def synced_def
        bind_io_def return_io_def throw_fault_def throw_io_def request_a_def
        saveToVault_eq saved_def vault_item_def emit_def)
  show ?thesis by (intro conjI 1 2 3)
qed

text \<open>
  C3 (amended). On every scan of a staging text with at least one question, every
  question of the batch is hashed and \<open>checkDuplicate\<close> is called for each hash, in
  order, before the request to the AI and before any write: the events of the scan begin
  with the lookups (one for each hash when the store is configured, none when it is not)
  and no lookup follows. If at least one check reports its hash as present, the batch is
  not sent to the AI and nothing is written: the lookups are the only events, the
  documents are as before, and the state holds the pending batch (questions, hashes and
  the indices of the hashes reported present) with status \<open>IDLE\<close>. If no check reports
  a hash as present, processing proceeds immediately with the whole batch. The indices
  are those of the hashes that the check finds; where the store is configured and the
  lookups succeed, the check finds a hash exactly if it is in the vault. On the user's
  decision, \<open>Process All Anyway\<close> processes the pending batch whole and
  \<open>Skip Duplicates\<close> processes it without the questions at the duplicate indices.
\<close>

theorem duplicate_check_before_write:
  "(trim (inputText a) \<noteq> [] \<and> rawQuestions (inputText a) \<noteq> [] \<longrightarrow>
     (let rqs = rawQuestions (inputText a); hs = map getQuestionHash rqs
      in (list_ex (lookup_finds w) hs \<longrightarrow>
            handleInitialScan a w =
              (Inr (a\<lparr>status := IDLE, error := None,
                      pendingBatch :=
                        Some \<lparr>questions = rqs, hashes = hs,
                              duplicateIndices =
                                indices_of_duplicates (map (lookup_finds w) hs)\<rparr>\<rparr>),
               checked hs w)
            \<and> docs (checked hs w) = docs w
            \<and> new_events w (checked hs w) = (if configured w then map StoreGet hs else []))
         \<and> (\<not> list_ex (lookup_finds w) hs \<longrightarrow>
               handleInitialScan a w =
                 executeProcessing rqs hs (a\<lparr>status := LOADING, error := None\<rparr>) (checked hs w))
         \<and> (\<exists>rest. new_events w (snd (handleInitialScan a w))
                        = (if configured w then map StoreGet hs else []) @ rest
                      \<and> \<not> list_ex is_StoreGet rest)
         \<and> set (indices_of_duplicates (map (lookup_finds w) hs))
             = {i. i < length hs \<and> lookup_finds w (hs ! i)}
         \<and> (configured w \<and> list_all (\<lambda>h. store_fault w (GetDoc h) = None) hs \<longrightarrow>
               list_all (\<lambda>h. lookup_finds w h = (map_of (docs w) h \<noteq> None)) hs)))
   \<and> (pendingBatch a = Some pb \<longrightarrow>
        onProcessAll a w = executeProcessing (questions pb) (hashes pb) a w
        \<and> onSkipDuplicates a w =
            executeProcessing (without_indices (duplicateIndices pb) (questions pb))
              (without_indices (duplicateIndices pb) (hashes pb)) a w)"
proof -
  let ?rqs = "rawQuestions (inputText a)"
  let ?hs = "map getQuestionHash ?rqs"
  have 1: "list_ex (lookup_finds w) ?hs \<longrightarrow>
            handleInitialScan a w =
              (Inr (a\<lparr>status := IDLE, error := None,
                      pendingBatch :=
                        Some \<lparr>questions = ?rqs, hashes = ?hs,
                              duplicateIndices =
                                indices_of_duplicates (map (lookup_finds w) ?hs)\<rparr>\<rparr>),
               checked ?hs w)
            \<and> docs (checked ?hs w) = docs w
            \<and> new_events w (checked ?hs w) = (if configured w then map StoreGet ?hs else [])"
    if "trim (inputText a) \<noteq> []" "?rqs \<noteq> []"
    using that by (simp add: handleInitialScan_eq new_events_def checked_def)
  have 2: "\<not> list_ex (lookup_finds w) ?hs \<longrightarrow>
               handleInitialScan a w =
                 executeProcessing ?rqs ?hs (a\<lparr>status := LOADING, error := None\<rparr>) (checked ?hs w)"
    if "trim (inputText a) \<noteq> []" "?rqs \<noteq> []"
    using that by (simp add: handleInitialScan_eq)
  have 3: "\<exists>rest. new_events w (snd (handleInitialScan a w))
                        = (if configured w then map StoreGet ?hs else []) @ rest
                      \<and> \<not> list_ex is_StoreGet rest"
    if "trim (inputText a) \<noteq> []" "?rqs \<noteq> []"
    using that by (rule scan_checks_first)
  have 4: "set (indices_of_duplicates (map (lookup_finds w) ?hs))
             = {i. i < length ?hs \<and> lookup_finds w (?hs ! i)}"
    by (rule set_indices_of_duplicates)
  have 5: "configured w \<and> list_all (\<lambda>h. store_fault w (GetDoc h) = None) ?hs \<longrightarrow>
               list_all (\<lambda>h. lookup_finds w h = (map_of (docs w) h \<noteq> None)) ?hs"
    by (auto simp: list_all_iff lookup_finds_def)
  have 6: "pendingBatch a = Some pb \<longrightarrow>
        onProcessAll a w = executeProcessing (questions pb) (hashes pb) a w
        \<and> onSkipDuplicates a w =
            executeProcessing (without_indices (duplicateIndices pb) (questions pb))
              (without_indices (duplicateIndices pb) (hashes pb)) a w"
    by (simp add: onProcessAll_def onSkipDuplicates_def)
  show ?thesis
    unfolding Let_def
    using 1 2 3 4 5 6 by (intro conjI impI) blast+
qed

text \<open>A scan of one question that is in the vault, a scan of it with an empty vault, and
  the two decisions on the pending batch.\<close>

theorem duplicate_check_before_write_witness:
  "handleInitialScan (ex_app ''Question: a'') w_dup
     = (Inr ((ex_app ''Question: a'')\<lparr>pendingBatch := Some pending_a\<rparr>),
        w_dup\<lparr>trace := [StoreGet hash_a]\<rparr>)
   \<and> handleInitialScan (ex_app ''Question: a'') (ex_world [] healthy)
     = executeProcessing [''Question: a''] [hash_a]
         ((ex_app ''Question: a'')\<lparr>status := LOADING\<rparr>)
         ((ex_world [] healthy)\<lparr>trace := [StoreGet hash_a]\<rparr>)
   \<and> onSkipDuplicates ((ex_app ''Question: a'')\<lparr>pendingBatch := Some pending_a\<rparr>) w_dup
     = executeProcessing [] [] ((ex_app ''Question: a'')\<lparr>pendingBatch := Some pending_a\<rparr>) w_dup
   \<and> onProcessAll ((ex_app ''Question: a'')\<lparr>pendingBatch := Some pending_a\<rparr>) w_dup
     = executeProcessing [''Question: a''] [hash_a]
         ((ex_app ''Question: a'')\<lparr>pendingBatch := Some pending_a\<rparr>) w_dup"
proof -
  let ?a = "ex_app ''Question: a''"
  let ?ap = "?a\<lparr>pendingBatch := Some pending_a\<rparr>"
  note T = duplicate_check_before_write [unfolded Let_def]
  have h: "trim (inputText ?a) \<noteq> [] \<and> rawQuestions (inputText ?a) \<noteq> []"
    by (simp add: ex_app_def rawQuestions_example trim_example)
  have r: "rawQuestions (inputText ?a) = [''Question: a'']"
    by (simp add: ex_app_def rawQuestions_example)
  have f1: "list_ex (lookup_finds w_dup) (map getQuestionHash (rawQuestions (inputText ?a)))"
    by (simp add: r lookup_finds_def w_dup_def ex_world_def healthy_def hash_a_def)
  have f2: "\<not> list_ex (lookup_finds (ex_world [] healthy))
                (map getQuestionHash (rawQuestions (inputText ?a)))"
    by (simp add: r lookup_finds_def ex_world_def)
  have w1: "handleInitialScan ?a w_dup = (Inr ?ap, w_dup\<lparr>trace := [StoreGet hash_a]\<rparr>)"
    using T [where a = ?a and w = w_dup, THEN conjunct1, THEN mp, OF h, THEN conjunct1, THEN mp,
             OF f1, THEN conjunct1]
    by (simp add: ex_app_def rawQuestions_example pending_a_def hash_a_def checked_def
        w_dup_def ex_world_def indices_of_duplicates_def lookup_finds_def healthy_def)
  have w2: "handleInitialScan ?a (ex_world [] healthy)
     = executeProcessing [''Question: a''] [hash_a] (?a\<lparr>status := LOADING\<rparr>)
         ((ex_world [] healthy)\<lparr>trace := [StoreGet hash_a]\<rparr>)"
    using T [where a = ?a and w = "ex_world [] healthy", THEN conjunct1, THEN mp, OF h,
             THEN conjunct2, THEN conjunct1, THEN mp, OF f2]
    by (simp add: ex_app_def rawQuestions_example hash_a_def checked_def ex_world_def)
  have p: "pendingBatch ?ap = Some pending_a" by simp
  have w3: "onSkipDuplicates ?ap w_dup = executeProcessing [] [] ?ap w_dup"
    using T [where a = ?ap and w = w_dup and pb = pending_a, THEN conjunct2, THEN mp, OF p,
             THEN conjunct2]
    by (simp add: pending_a_def without_indices_def)
  have w4: "onProcessAll ?ap w_dup = executeProcessing [''Question: a''] [hash_a] ?ap w_dup"
    using T [where a = ?ap and w = w_dup and pb = pending_a, THEN conjunct2, THEN mp, OF p,
             THEN conjunct1]
    by (simp add: pending_a_def)
  show ?thesis by (intro conjI w1 w2 w3 w4)
qed

subsection \<open>The documents of the vault\<close>








lemma docs_checked [simp]: "docs (checked hs w) = docs w"
  by (simp add: checked_def)












end
